theory Spec2Isabelle
  imports Main "HOL-Library.Word" "HOL-Library.Multiset"
begin

unbundle bit_operations_syntax

section \<open>Bytes, typed arrays and errors\<close>

text \<open>
  A \<open>Uint8Array\<close> is a list of 8-bit words. Everything the SDK can throw is a value of
  \<open>error\<close>; a function that can throw returns \<open>error + 'a\<close> with \<open>Inl\<close> for the throw.
  Calls into libraries that are not part of the SDK (tweetnacl, ed2curve, @solana/kit, the
  RPC node, \<open>TextEncoder\<close>/\<open>TextDecoder\<close>, \<open>atob\<close>) are parameters of the functions
  that use them; what such a call throws is \<open>Thrown\<close> with an opaque tag.
\<close>

type_synonym u8 = "8 word"
type_synonym bytes = "u8 list"

datatype error =
    RangeError
  | MessageTooShort nat
  | SenderKeyConversionFailed
  | RecipientKeyConversionFailed
  | DecryptionFailed
  | NoEncryptionKey
  | Thrown string

text \<open>\<open>new Uint8Array(n)\<close>: \<open>n\<close> zero bytes.\<close>

definition new_Uint8Array :: "nat \<Rightarrow> bytes" where
  "new_Uint8Array n = replicate n 0"

text \<open>
  \<open>buf.set(src, offset)\<close> copies \<open>src\<close> into \<open>buf\<close> from \<open>offset\<close> on and throws a
  RangeError when \<open>src\<close> does not fit.
\<close>

definition set_bytes :: "bytes \<Rightarrow> bytes \<Rightarrow> nat \<Rightarrow> error + bytes" where
  "set_bytes buf src offset =
     (if length buf < offset + length src then Inl RangeError
      else Inr (take offset buf @ src @ drop (offset + length src) buf))"

text \<open>
  \<open>buf[i] = v\<close> stores \<open>v\<close> modulo 256; a store outside the array is ignored.
  \<open>buf[i]\<close> inside a bitwise expression reads 0 outside the array (\<open>undefined\<close> coerces
  to 0 there).
\<close>

definition put_byte :: "bytes \<Rightarrow> nat \<Rightarrow> nat \<Rightarrow> bytes" where
  "put_byte buf i v = (if i < length buf then buf[i := of_nat v] else buf)"

definition get_byte :: "bytes \<Rightarrow> nat \<Rightarrow> nat" where
  "get_byte buf i = (if i < length buf then unat (buf ! i) else 0)"

text \<open>\<open>buf.slice(a, b)\<close> and \<open>buf.slice(a)\<close> for indices that are not negative.\<close>

definition slice_bytes :: "bytes \<Rightarrow> nat \<Rightarrow> nat \<Rightarrow> bytes" where
  "slice_bytes buf a b = drop a (take b buf)"

definition slice_from :: "bytes \<Rightarrow> nat \<Rightarrow> bytes" where
  "slice_from buf a = drop a buf"

section \<open>Frame codec (crypto.ts)\<close>

definition HEADER_SIZE :: nat where
  "HEADER_SIZE = 13"

definition MAX_PAYLOAD_SIZE :: nat where
  "MAX_PAYLOAD_SIZE = 661"

definition FLAGS_STANDALONE :: nat where
  "FLAGS_STANDALONE = 0"

definition FLAGS_CHUNKED :: nat where
  "FLAGS_CHUNKED = 1"

text \<open>
  \<open>writeU16BE\<close>: \<open>buf[offset] = (value >> 8) & 0xff; buf[offset + 1] = value & 0xff\<close>.
  \<open>readU16BE\<close>: \<open>(buf[offset] << 8) | buf[offset + 1]\<close>.
\<close>

definition writeU16BE :: "bytes \<Rightarrow> nat \<Rightarrow> nat \<Rightarrow> bytes" where
  "writeU16BE buf v offset =
     put_byte (put_byte buf offset (drop_bit 8 v AND 255)) (offset + 1) (v AND 255)"

definition readU16BE :: "bytes \<Rightarrow> nat \<Rightarrow> nat" where
  "readU16BE buf offset = push_bit 8 (get_byte buf offset) OR get_byte buf (offset + 1)"

record DecodedMessage =
  flags :: nat
  messageId :: bytes
  chunkIndex :: nat
  totalChunks :: nat
  payload :: bytes

text \<open>
  One frame of \<open>encodeMessage\<close>: the body of the standalone branch
  (\<open>flag = FLAGS_STANDALONE\<close>, index 0, total 1) and of the chunk loop.
\<close>

definition build_frame :: "nat \<Rightarrow> bytes \<Rightarrow> nat \<Rightarrow> nat \<Rightarrow> bytes \<Rightarrow> error + bytes" where
  "build_frame flag mid idx tot body =
     (let frame = new_Uint8Array (HEADER_SIZE + length body);
          frame = put_byte frame 0 flag
      in case set_bytes frame mid 1 of
           Inl e \<Rightarrow> Inl e
         | Inr frame \<Rightarrow>
             (let frame = writeU16BE frame idx 9;
                  frame = writeU16BE frame tot 11
              in set_bytes frame body HEADER_SIZE))"

text \<open>
  The chunk loop \<open>for (let i = 0; i < totalChunks; i++)\<close>, from \<open>i\<close> on, with the
  frames pushed so far.
\<close>

function encode_chunks :: "bytes \<Rightarrow> bytes \<Rightarrow> nat \<Rightarrow> nat \<Rightarrow> bytes list \<Rightarrow> error + bytes list" where
  "encode_chunks body mid tot i chunks =
     (if i < tot then
        (let start = i * MAX_PAYLOAD_SIZE;
             stop = min (start + MAX_PAYLOAD_SIZE) (length body);
             chunkPayload = slice_bytes body start stop
         in case build_frame FLAGS_CHUNKED mid i tot chunkPayload of
              Inl e \<Rightarrow> Inl e
            | Inr frame \<Rightarrow> encode_chunks body mid tot (Suc i) (chunks @ [frame]))
      else Inr chunks)"
  by pat_completeness auto
termination
  by (relation "measure (\<lambda>(body, mid, tot, i, chunks). tot - i)") auto

declare encode_chunks.simps [simp del]

text \<open>
  \<open>encodeMessage(text)\<close>. The UTF-8 encoder and the 8 random bytes of
  \<open>randomMessageId()\<close> are parameters. \<open>Math.ceil(n / 661)\<close> is \<open>(n + 660) div 661\<close>.
\<close>

definition encodeMessage :: "(string \<Rightarrow> bytes) \<Rightarrow> bytes \<Rightarrow> string \<Rightarrow> error + bytes list" where
  "encodeMessage TextEncoder_encode randomMessageId text =
     (let body = TextEncoder_encode text;
          mid = randomMessageId
      in if length body \<le> MAX_PAYLOAD_SIZE then
           (case build_frame FLAGS_STANDALONE mid 0 1 body of
              Inl e \<Rightarrow> Inl e
            | Inr frame \<Rightarrow> Inr [frame])
         else
           encode_chunks body mid ((length body + (MAX_PAYLOAD_SIZE - 1)) div MAX_PAYLOAD_SIZE) 0 [])"

definition decodeMessage :: "bytes \<Rightarrow> error + DecodedMessage" where
  "decodeMessage dat =
     (if length dat < HEADER_SIZE then Inl (MessageTooShort (length dat))
      else Inr \<lparr> flags = unat (dat ! 0),
                 messageId = slice_bytes dat 1 9,
                 chunkIndex = readU16BE dat 9,
                 totalChunks = readU16BE dat 11,
                 payload = slice_from dat HEADER_SIZE \<rparr>)"

text \<open>
  The wire layout of a frame: flags, message id, chunk index and total chunks (both
  big-endian, 16 bits), payload. \<open>chunk_of body i\<close> is what the chunk loop slices out for
  chunk \<open>i\<close>.
\<close>

definition frame_bytes :: "nat \<Rightarrow> bytes \<Rightarrow> nat \<Rightarrow> nat \<Rightarrow> bytes \<Rightarrow> bytes" where
  "frame_bytes flag mid idx tot body =
     of_nat flag # mid @
     [of_nat (drop_bit 8 idx AND 255), of_nat (idx AND 255),
      of_nat (drop_bit 8 tot AND 255), of_nat (tot AND 255)] @ body"

definition chunk_of :: "bytes \<Rightarrow> nat \<Rightarrow> bytes" where
  "chunk_of body i = slice_bytes body (i * MAX_PAYLOAD_SIZE) (min (i * MAX_PAYLOAD_SIZE + MAX_PAYLOAD_SIZE) (length body))"

section \<open>JavaScript numbers and strings\<close>

text \<open>
  The bitwise operators of JavaScript work on 32-bit integers: \<open>a | b\<close> and \<open>a << k\<close>
  convert their operands with ToInt32 and give a signed 32-bit result, \<open>a >>> k\<close> gives an
  unsigned one.
\<close>

definition js_or :: "int \<Rightarrow> int \<Rightarrow> int" where
  "js_or a b = sint ((word_of_int a :: 32 word) OR word_of_int b)"

definition js_shl :: "int \<Rightarrow> nat \<Rightarrow> int" where
  "js_shl a k = sint (push_bit (k mod 32) (word_of_int a :: 32 word))"

definition js_ushr :: "int \<Rightarrow> nat \<Rightarrow> int" where
  "js_ushr a k = uint (drop_bit (k mod 32) (word_of_int a :: 32 word))"

text \<open>
  A number is a double: an integer of magnitude up to \<open>2^53\<close> is exact, a larger one is
  rounded to 53 significant bits, ties to even.
\<close>

function bit_length :: "nat \<Rightarrow> nat" where
  "bit_length n = (if n = 0 then 0 else Suc (bit_length (n div 2)))"
  by pat_completeness auto
termination
  by (relation "measure id") auto

declare bit_length.simps [simp del]

definition round_to_double :: "int \<Rightarrow> int" where
  "round_to_double x =
     (if \<bar>x\<bar> \<le> 2 ^ 53 then x
      else (let a = \<bar>x\<bar>;
                q = 2 ^ (bit_length (nat a) - 53);
                d = a div q;
                r = a mod q;
                d' = (if q < 2 * r \<or> (2 * r = q \<and> odd d) then d + 1 else d)
            in sgn x * d' * q))"

text \<open>
  \<open>data[i]\<close> where the index is a number: inside a bitwise expression a read outside the
  array (\<open>undefined\<close>) counts as 0.
\<close>

definition byte_at :: "bytes \<Rightarrow> int \<Rightarrow> int" where
  "byte_at dat i = (if 0 \<le> i \<and> i < int (length dat) then uint (dat ! nat i) else 0)"

text \<open>
  \<open>data.subarray(start, stop)\<close>: a negative index counts from the end, both are clamped
  to the array, and the result is empty when \<open>stop\<close> is not after \<open>start\<close>.
\<close>

definition subarray :: "bytes \<Rightarrow> int \<Rightarrow> int \<Rightarrow> bytes" where
  "subarray dat start stop =
     (let len = int (length dat);
          b = (if start < 0 then max (len + start) 0 else min start len);
          e = (if stop < 0 then max (len + stop) 0 else min stop len)
      in take (nat (e - b)) (drop (nat b) dat))"

text \<open>
  Log lines are strings of code units below 256. \<open>line.indexOf(pat)\<close> is the first
  position where \<open>pat\<close> occurs (\<open>None\<close> for -1); \<open>trim\<close> strips white space and line
  terminators (of the code units below 256: 9 to 13, 32 and 160) from both ends.
\<close>

fun indexOf :: "string \<Rightarrow> string \<Rightarrow> nat option" where
  "indexOf [] pat = (if pat = [] then Some 0 else None)"
| "indexOf (c # cs) pat =
     (if take (length pat) (c # cs) = pat then Some 0 else map_option Suc (indexOf cs pat))"

definition is_white_space :: "char \<Rightarrow> bool" where
  "is_white_space c = ((of_char c :: nat) \<in> {9, 10, 11, 12, 13, 32, 160})"

definition trim :: "string \<Rightarrow> string" where
  "trim s = rev (dropWhile is_white_space (rev (dropWhile is_white_space s)))"

section \<open>Event parser (events.ts)\<close>

record MessageSentEvent =
  sender :: string
  recipient :: string
  ciphertext :: bytes
  nonce :: bytes
  timestamp :: int
  txSignature :: "string option"

definition MESSAGE_SENT_DISCRIMINATOR :: bytes where
  "MESSAGE_SENT_DISCRIMINATOR = [116, 70, 224, 76, 128, 28, 110, 55]"

definition bytesEqual :: "bytes \<Rightarrow> bytes \<Rightarrow> bool" where
  "bytesEqual a b =
     (if length a \<noteq> length b then False
      else list_all (\<lambda>i. a ! i = b ! i) [0..<length a])"

definition readU32LE :: "bytes \<Rightarrow> int \<Rightarrow> int" where
  "readU32LE dat offset =
     js_or (js_or (js_or (byte_at dat offset) (js_shl (byte_at dat (offset + 1)) 8))
                  (js_shl (byte_at dat (offset + 2)) 16))
           (js_shl (byte_at dat (offset + 3)) 24)"

definition readI64LE :: "bytes \<Rightarrow> int \<Rightarrow> int" where
  "readI64LE dat offset =
     (let lo = js_or (js_or (js_or (byte_at dat offset) (js_shl (byte_at dat (offset + 1)) 8))
                            (js_shl (byte_at dat (offset + 2)) 16))
                     (js_ushr (js_shl (byte_at dat (offset + 3)) 24) 0);
          hi = js_or (js_or (js_or (byte_at dat (offset + 4)) (js_shl (byte_at dat (offset + 5)) 8))
                            (js_shl (byte_at dat (offset + 6)) 16))
                     (js_ushr (js_shl (byte_at dat (offset + 7)) 24) 0)
      in round_to_double (lo + hi * 4294967296))"

text \<open>
  The body of the loop over the log lines: \<open>None\<close> where the source says \<open>continue\<close>.
  \<open>base64Decode\<close> (\<open>atob\<close>, which throws on input that is not base64: \<open>None\<close>) and
  \<open>pubkeyBytesToAddress\<close> (the base58 text of the bytes) are parameters.
\<close>

definition parse_line ::
  "(string \<Rightarrow> bytes option) \<Rightarrow> (bytes \<Rightarrow> string) \<Rightarrow> string \<Rightarrow> MessageSentEvent option" where
  "parse_line base64Decode pubkeyBytesToAddress line =
     (let prefix = ''Program data: '' in
      case indexOf line prefix of
        None \<Rightarrow> None
      | Some idx \<Rightarrow>
          (let b64 = trim (drop (idx + length prefix) line) in
           case base64Decode b64 of
             None \<Rightarrow> None
           | Some dat \<Rightarrow>
               if length dat < 8 then None
               else if \<not> bytesEqual (subarray dat 0 8) MESSAGE_SENT_DISCRIMINATOR then None
               else
                 (let offset = 8;
                      senderBytes = subarray dat offset (offset + 32);
                      offset = offset + 32;
                      recipientBytes = subarray dat offset (offset + 32);
                      offset = offset + 32;
                      ctLen = readU32LE dat offset;
                      offset = offset + 4;
                      ct = subarray dat offset (offset + ctLen);
                      offset = offset + ctLen;
                      nc = subarray dat offset (offset + 24);
                      offset = offset + 24;
                      ts = readI64LE dat offset
                  in Some \<lparr> sender = pubkeyBytesToAddress senderBytes,
                              recipient = pubkeyBytesToAddress recipientBytes,
                              ciphertext = ct,
                              nonce = nc,
                              timestamp = ts,
                              txSignature = None \<rparr>)))"

fun parse_lines ::
  "(string \<Rightarrow> bytes option) \<Rightarrow> (bytes \<Rightarrow> string) \<Rightarrow> string list \<Rightarrow>
   MessageSentEvent list \<Rightarrow> MessageSentEvent list" where
  "parse_lines base64Decode pubkeyBytesToAddress [] events = events"
| "parse_lines base64Decode pubkeyBytesToAddress (line # logs) events =
     parse_lines base64Decode pubkeyBytesToAddress logs
       (case parse_line base64Decode pubkeyBytesToAddress line of
          None \<Rightarrow> events
        | Some event \<Rightarrow> events @ [event])"

definition parseMessageSentEvents ::
  "(string \<Rightarrow> bytes option) \<Rightarrow> (bytes \<Rightarrow> string) \<Rightarrow> string list \<Rightarrow> MessageSentEvent list" where
  "parseMessageSentEvents base64Decode pubkeyBytesToAddress logs =
     parse_lines base64Decode pubkeyBytesToAddress logs []"

text \<open>
  The eight bytes of a signed 64-bit integer, least significant first: the layout of the
  timestamp of an event.
\<close>

definition i64le :: "int \<Rightarrow> bytes" where
  "i64le t = (let w = (word_of_int t :: 64 word)
              in [ucast w, ucast (drop_bit 8 w), ucast (drop_bit 16 w), ucast (drop_bit 24 w),
                  ucast (drop_bit 32 w), ucast (drop_bit 40 w), ucast (drop_bit 48 w),
                  ucast (drop_bit 56 w)])"

text \<open>
  The little-endian word of four bytes: what the chain of \<open>|\<close> and \<open><<\<close> in
  \<open>readU32LE\<close> and \<open>readI64LE\<close> puts together.
\<close>

definition le32 :: "u8 \<Rightarrow> u8 \<Rightarrow> u8 \<Rightarrow> u8 \<Rightarrow> 32 word" where
  "le32 b0 b1 b2 b3 =
     ucast b0 OR push_bit 8 (ucast b1) OR push_bit 16 (ucast b2) OR push_bit 24 (ucast b3)"

section \<open>Instruction builders (instructions.ts)\<close>

text \<open>
  What the builders use of @solana/kit: \<open>getBase58Encoder().encode\<close> (base58 text to
  bytes; throws on a character outside the alphabet), \<open>getBase58Decoder().decode\<close> (bytes
  to base58 text), \<open>address\<close> (returns its argument when it is the base58 text of 32
  bytes and throws otherwise) and \<open>getProgramDerivedAddress\<close>.
\<close>

record kit =
  base58_to_bytes :: "string \<Rightarrow> error + bytes"
  bytes_to_base58 :: "bytes \<Rightarrow> string"
  is_address :: "string \<Rightarrow> bool"
  getProgramDerivedAddress :: "string \<Rightarrow> bytes list \<Rightarrow> error + string"

definition address :: "kit \<Rightarrow> string \<Rightarrow> error + string" where
  "address K a = (if is_address K a then Inr a else Inl (Thrown ''not a base58 address''))"

definition addressToBytes :: "kit \<Rightarrow> string \<Rightarrow> error + bytes" where
  "addressToBytes K addr = base58_to_bytes K addr"

datatype AccountRole = READONLY | WRITABLE | READONLY_SIGNER | WRITABLE_SIGNER

record AccountMeta =
  acc_address :: string
  acc_role :: AccountRole

record Instruction =
  programAddress :: string
  accounts :: "AccountMeta list"
  data :: bytes

definition SEND_MESSAGE_DISC :: bytes where
  "SEND_MESSAGE_DISC = [57, 40, 34, 178, 189, 10, 65, 26]"

definition REGISTER_DISC :: bytes where
  "REGISTER_DISC = [211, 124, 67, 15, 211, 194, 178, 240]"

definition UPDATE_ENCRYPTION_KEY_DISC :: bytes where
  "UPDATE_ENCRYPTION_KEY_DISC = [92, 233, 29, 101, 152, 97, 110, 235]"

definition DEREGISTER_DISC :: bytes where
  "DEREGISTER_DISC = [161, 178, 39, 189, 231, 224, 13, 187]"

definition DEFAULT_PROGRAM_ID :: string where
  "DEFAULT_PROGRAM_ID = ''msg1jhfewu1hGDnQKGhXDmqas6JZTq7Lg7PbSX5jY9y''"

definition SYSTEM_PROGRAM :: string where
  "SYSTEM_PROGRAM = ''11111111111111111111111111111111''"

text \<open>
  \<open>view.setUint32(offset, v, true)\<close>: the low 32 bits of \<open>v\<close>, least significant byte
  first; a RangeError when the four bytes do not fit.
\<close>

definition u32le :: "nat \<Rightarrow> bytes" where
  "u32le v = (let w = (of_nat v :: 32 word)
              in [ucast w, ucast (drop_bit 8 w), ucast (drop_bit 16 w), ucast (drop_bit 24 w)])"

definition setUint32_le :: "bytes \<Rightarrow> nat \<Rightarrow> nat \<Rightarrow> error + bytes" where
  "setUint32_le buf offset v =
     (if length buf < offset + 4 then Inl RangeError
      else Inr (take offset buf @ u32le v @ drop (offset + 4) buf))"

definition serializeSendMessageData :: "bytes \<Rightarrow> bytes \<Rightarrow> bytes \<Rightarrow> error + bytes" where
  "serializeSendMessageData recipientPubkey ct nc =
     (let len = 8 + 32 + 4 + length ct + 24;
          buf = new_Uint8Array len;
          offset = 0
      in case set_bytes buf SEND_MESSAGE_DISC offset of
           Inl e \<Rightarrow> Inl e
         | Inr buf \<Rightarrow>
             (let offset = offset + 8 in
              case set_bytes buf recipientPubkey offset of
                Inl e \<Rightarrow> Inl e
              | Inr buf \<Rightarrow>
                  (let offset = offset + 32 in
                   case setUint32_le buf offset (length ct) of
                     Inl e \<Rightarrow> Inl e
                   | Inr buf \<Rightarrow>
                       (let offset = offset + 4 in
                        case set_bytes buf ct offset of
                          Inl e \<Rightarrow> Inl e
                        | Inr buf \<Rightarrow>
                            (let offset = offset + length ct
                             in set_bytes buf nc offset)))))"

text \<open>
  The account list of a builder: \<open>address(...)\<close> is applied to each entry in order and
  the first throw ends the builder.
\<close>

fun account_list :: "kit \<Rightarrow> (string \<times> AccountRole) list \<Rightarrow> error + AccountMeta list" where
  "account_list K [] = Inr []"
| "account_list K ((a, r) # rest) =
     (case address K a of
        Inl e \<Rightarrow> Inl e
      | Inr a' \<Rightarrow>
          (case account_list K rest of
             Inl e \<Rightarrow> Inl e
           | Inr metas \<Rightarrow> Inr (\<lparr> acc_address = a', acc_role = r \<rparr> # metas)))"

definition make_instruction ::
  "kit \<Rightarrow> string \<Rightarrow> (string \<times> AccountRole) list \<Rightarrow> bytes \<Rightarrow> error + Instruction" where
  "make_instruction K programId accs dat =
     (case address K programId of
        Inl e \<Rightarrow> Inl e
      | Inr p \<Rightarrow>
          (case account_list K accs of
             Inl e \<Rightarrow> Inl e
           | Inr metas \<Rightarrow> Inr \<lparr> programAddress = p, accounts = metas, data = dat \<rparr>))"

text \<open>
  The builders take the fields of their \<open>params\<close> object as arguments, \<open>programId\<close> last
  (\<open>None\<close> when it is left out).
\<close>

definition buildSendMessageInstruction ::
  "kit \<Rightarrow> string \<Rightarrow> string \<Rightarrow> bytes \<Rightarrow> bytes \<Rightarrow> string \<Rightarrow> string \<Rightarrow> string \<Rightarrow> string option \<Rightarrow>
   error + Instruction" where
  "buildSendMessageInstruction K sender' recipient' ct nc configPda feeVault recipientRegistryPda programId' =
     (let programId = (case programId' of None \<Rightarrow> DEFAULT_PROGRAM_ID | Some p \<Rightarrow> p) in
      case addressToBytes K recipient' of
        Inl e \<Rightarrow> Inl e
      | Inr recipientBytes \<Rightarrow>
          (case serializeSendMessageData recipientBytes ct nc of
             Inl e \<Rightarrow> Inl e
           | Inr dat \<Rightarrow>
               make_instruction K programId
                 [(sender', WRITABLE_SIGNER), (configPda, READONLY), (feeVault, WRITABLE),
                  (recipientRegistryPda, READONLY), (recipient', WRITABLE),
                  (SYSTEM_PROGRAM, READONLY)]
                 dat))"

definition buildRegisterInstruction ::
  "kit \<Rightarrow> string \<Rightarrow> bytes \<Rightarrow> string \<Rightarrow> string option \<Rightarrow> error + Instruction" where
  "buildRegisterInstruction K owner encryptionPubkey registryPda programId' =
     (let programId = (case programId' of None \<Rightarrow> DEFAULT_PROGRAM_ID | Some p \<Rightarrow> p);
          dat = new_Uint8Array 40
      in case set_bytes dat REGISTER_DISC 0 of
           Inl e \<Rightarrow> Inl e
         | Inr dat \<Rightarrow>
             (case set_bytes dat encryptionPubkey 8 of
                Inl e \<Rightarrow> Inl e
              | Inr dat \<Rightarrow>
                  make_instruction K programId
                    [(registryPda, WRITABLE), (owner, WRITABLE_SIGNER), (SYSTEM_PROGRAM, READONLY)]
                    dat))"

definition buildUpdateEncryptionKeyInstruction ::
  "kit \<Rightarrow> string \<Rightarrow> bytes \<Rightarrow> string \<Rightarrow> string option \<Rightarrow> error + Instruction" where
  "buildUpdateEncryptionKeyInstruction K owner newEncryptionPubkey registryPda programId' =
     (let programId = (case programId' of None \<Rightarrow> DEFAULT_PROGRAM_ID | Some p \<Rightarrow> p);
          dat = new_Uint8Array 40
      in case set_bytes dat UPDATE_ENCRYPTION_KEY_DISC 0 of
           Inl e \<Rightarrow> Inl e
         | Inr dat \<Rightarrow>
             (case set_bytes dat newEncryptionPubkey 8 of
                Inl e \<Rightarrow> Inl e
              | Inr dat \<Rightarrow>
                  make_instruction K programId
                    [(registryPda, WRITABLE), (owner, READONLY_SIGNER)]
                    dat))"

definition buildDeregisterInstruction ::
  "kit \<Rightarrow> string \<Rightarrow> string \<Rightarrow> string option \<Rightarrow> error + Instruction" where
  "buildDeregisterInstruction K owner registryPda programId' =
     (let programId = (case programId' of None \<Rightarrow> DEFAULT_PROGRAM_ID | Some p \<Rightarrow> p);
          dat = new_Uint8Array 8
      in case set_bytes dat DEREGISTER_DISC 0 of
           Inl e \<Rightarrow> Inl e
         | Inr dat \<Rightarrow>
             make_instruction K programId
               [(registryPda, WRITABLE), (owner, WRITABLE_SIGNER)]
               dat)"

section \<open>Encryption (crypto.ts)\<close>

text \<open>
  The primitives of ed2curve and tweetnacl. \<open>convertPublicKey\<close> returns \<open>null\<close>
  (\<open>None\<close>) for a key it cannot convert. \<open>nacl.box.open\<close> returns \<open>null\<close> when the
  authentication fails; \<open>nacl.box\<close> and \<open>nacl.box.open\<close> may also throw (they check the
  sizes of nonce and keys), which is \<open>Inl\<close>.
\<close>

record crypto_lib =
  convertPublicKey :: "bytes \<Rightarrow> bytes option"
  convertSecretKey :: "bytes \<Rightarrow> bytes"
  box :: "bytes \<Rightarrow> bytes \<Rightarrow> bytes \<Rightarrow> bytes \<Rightarrow> error + bytes"
  box_open :: "bytes \<Rightarrow> bytes \<Rightarrow> bytes \<Rightarrow> bytes \<Rightarrow> error + bytes option"

text \<open>
  \<open>encrypt(message, senderSecretKey, recipientPublicKey)\<close>; the 24 random bytes of the
  nonce are the argument \<open>randomBytes24\<close>. The result is the pair of the ciphertext and the
  nonce.
\<close>

definition encrypt :: "crypto_lib \<Rightarrow> bytes \<Rightarrow> bytes \<Rightarrow> bytes \<Rightarrow> bytes \<Rightarrow> error + bytes \<times> bytes" where
  "encrypt C randomBytes24 message senderSecretKey recipientPublicKey =
     (let senderX = convertSecretKey C senderSecretKey;
          recipientX = convertPublicKey C recipientPublicKey
      in case recipientX of
           None \<Rightarrow> Inl RecipientKeyConversionFailed
         | Some rx \<Rightarrow>
             (let nc = randomBytes24 in
              case box C message nc rx senderX of
                Inl e \<Rightarrow> Inl e
              | Inr ct \<Rightarrow> Inr (ct, nc)))"

definition decrypt ::
  "crypto_lib \<Rightarrow> (bytes \<Rightarrow> string) \<Rightarrow> bytes \<Rightarrow> bytes \<Rightarrow> bytes \<Rightarrow> bytes \<Rightarrow> error + string" where
  "decrypt C TextDecoder_decode ct nc senderPublicKey recipientSecretKey =
     (let senderX = convertPublicKey C senderPublicKey;
          recipientX = convertSecretKey C recipientSecretKey
      in case senderX of
           None \<Rightarrow> Inl SenderKeyConversionFailed
         | Some sx \<Rightarrow>
             (case box_open C ct nc sx recipientX of
                Inl e \<Rightarrow> Inl e
              | Inr None \<Rightarrow> Inl DecryptionFailed
              | Inr (Some plaintext) \<Rightarrow> Inr (TextDecoder_decode plaintext)))"

definition decryptRaw ::
  "crypto_lib \<Rightarrow> bytes \<Rightarrow> bytes \<Rightarrow> bytes \<Rightarrow> bytes \<Rightarrow> error + bytes option" where
  "decryptRaw C ct nc senderPublicKey recipientSecretKey =
     (let senderX = convertPublicKey C senderPublicKey;
          recipientX = convertSecretKey C recipientSecretKey
      in case senderX of
           None \<Rightarrow> Inr None
         | Some sx \<Rightarrow> box_open C ct nc sx recipientX)"

section \<open>Registry lookup (pda.ts, registry.ts)\<close>

definition deriveRegistryPda :: "kit \<Rightarrow> string \<Rightarrow> string option \<Rightarrow> error + string" where
  "deriveRegistryPda K walletAddress programId' =
     (case addressToBytes K walletAddress of
        Inl e \<Rightarrow> Inl e
      | Inr walletBytes \<Rightarrow>
          (case address K (case programId' of None \<Rightarrow> DEFAULT_PROGRAM_ID | Some p \<Rightarrow> p) of
             Inl e \<Rightarrow> Inl e
           | Inr programAddr \<Rightarrow>
               getProgramDerivedAddress K programAddr
                 [[109, 101, 115, 115, 101, 110, 103, 101, 114], walletBytes]))"

text \<open>
  The RPC node. \<open>getSignaturesForAddress(program, {before, limit: 1000})\<close> answers with
  signatures and their block times (\<open>null\<close> is \<open>None\<close>); \<open>getTransaction(signature)\<close>
  answers with \<open>tx?.meta?.logMessages\<close> (\<open>None\<close> when any of the three is missing);
  \<open>getAccountInfo(address)\<close> answers with \<open>result.value?.data\<close>, which is missing
  (\<open>None\<close>) when the account does not exist, and else a base64 string, a pair whose first
  component is a base64 string, or some other object. Every call may throw (\<open>Inl\<close>).
  \<open>Buffer.from(s, "base64")\<close> is the parameter \<open>from_base64\<close>; it accepts every string.
\<close>

datatype account_data = DataString string | DataPair string | DataObject

record signature_info =
  signature :: string
  blockTime :: "int option"

record rpc_node =
  getSignaturesForAddress :: "string \<Rightarrow> string option \<Rightarrow> error + signature_info list"
  getTransaction :: "string \<Rightarrow> error + string list option"
  getAccountInfo :: "string \<Rightarrow> error + account_data option"

definition lookupEncryptionKey ::
  "kit \<Rightarrow> (string \<Rightarrow> bytes) \<Rightarrow> rpc_node \<Rightarrow> string \<Rightarrow> string option \<Rightarrow> error + string option" where
  "lookupEncryptionKey K from_base64 rpc walletAddress programId' =
     (case deriveRegistryPda K walletAddress programId' of
        Inl e \<Rightarrow> Inl e
      | Inr registryPda \<Rightarrow>
          (case address K registryPda of
             Inl e \<Rightarrow> Inr None
           | Inr pda \<Rightarrow>
               (case getAccountInfo rpc pda of
                  Inl e \<Rightarrow> Inr None
                | Inr None \<Rightarrow> Inr None
                | Inr (Some (DataString s)) \<Rightarrow>
                    if s = [] then Inr None
                    else Inr (Some (bytes_to_base58 K (subarray (from_base64 s) 40 72)))
                | Inr (Some (DataPair s)) \<Rightarrow>
                    Inr (Some (bytes_to_base58 K (subarray (from_base64 s) 40 72)))
                | Inr (Some DataObject) \<Rightarrow> Inr None)))"

section \<open>The messenger (messenger.ts)\<close>

text \<open>
  The fields of a \<open>SolanaMessenger\<close> that the operations below read. \<open>myAddress\<close> is
  what \<open>getAddress()\<close> resolves to; \<open>encryptionKeypair\<close> is the pair of the public and
  the secret key.
\<close>

record messenger =
  myAddress :: string
  programId :: string
  initialized :: bool
  keypairBytes :: "bytes option"
  encryptionKeypair :: "(bytes \<times> bytes) option"

record Message =
  msg_sender :: string
  msg_recipient :: string
  msg_text :: string
  msg_timestamp :: int
  msg_messageId :: bytes
  msg_txSignatures :: "string list"

definition hex_digit :: "nat \<Rightarrow> char" where
  "hex_digit d = ''0123456789abcdef'' ! d"

text \<open>\<open>hexEncode\<close>: \<open>bytes[i].toString(16).padStart(2, "0")\<close> for every byte.\<close>

definition hexEncode :: "bytes \<Rightarrow> string" where
  "hexEncode bs = concat (map (\<lambda>b. [hex_digit (unat b div 16), hex_digit (unat b mod 16)]) bs)"

definition decryptToBytes ::
  "kit \<Rightarrow> crypto_lib \<Rightarrow> messenger \<Rightarrow> MessageSentEvent \<Rightarrow> error + bytes option" where
  "decryptToBytes K C m event =
     (case addressToBytes K (sender event) of
        Inl e \<Rightarrow> Inl e
      | Inr senderPubkeyBytes \<Rightarrow>
          (let with_identity_key =
                 (case keypairBytes m of
                    Some kb \<Rightarrow> decryptRaw C (ciphertext event) (nonce event) senderPubkeyBytes kb
                  | None \<Rightarrow> Inr None)
           in case encryptionKeypair m of
                None \<Rightarrow> with_identity_key
              | Some (pk, sk) \<Rightarrow>
                  (case decryptRaw C (ciphertext event) (nonce event) senderPubkeyBytes sk of
                     Inl e \<Rightarrow> Inl e
                   | Inr (Some result) \<Rightarrow> Inr (Some result)
                   | Inr None \<Rightarrow> with_identity_key)))"

text \<open>\<open>event.txSignature || ""\<close>.\<close>

definition signature_or_empty :: "MessageSentEvent \<Rightarrow> string" where
  "signature_or_empty event = (case txSignature event of None \<Rightarrow> [] | Some s \<Rightarrow> s)"

text \<open>The message of a frame with \<open>totalChunks = 1\<close>.\<close>

definition standalone_message ::
  "(bytes \<Rightarrow> string) \<Rightarrow> DecodedMessage \<Rightarrow> MessageSentEvent \<Rightarrow> Message" where
  "standalone_message TextDecoder_decode decoded event =
     \<lparr> msg_sender = sender event,
       msg_recipient = recipient event,
       msg_text = TextDecoder_decode (payload decoded),
       msg_timestamp = timestamp event,
       msg_messageId = messageId decoded,
       msg_txSignatures = [signature_or_empty event] \<rparr>"

text \<open>
  The message of a list of chunks, as \<open>reassembleMessages\<close> and \<open>assembleChunks\<close> both
  build it once the list is sorted: the payloads are copied one after the other into a
  buffer of their total length, and the other fields come from the first chunk (reading
  \<open>chunks[0]\<close> of an empty list throws a TypeError).
\<close>

fun copy_payloads :: "bytes \<Rightarrow> bytes list \<Rightarrow> nat \<Rightarrow> error + bytes" where
  "copy_payloads combined [] offset = Inr combined"
| "copy_payloads combined (p # payloads) offset =
     (case set_bytes combined p offset of
        Inl e \<Rightarrow> Inl e
      | Inr combined' \<Rightarrow> copy_payloads combined' payloads (offset + length p))"

definition message_of_chunks ::
  "(bytes \<Rightarrow> string) \<Rightarrow> (DecodedMessage \<times> MessageSentEvent) list \<Rightarrow> error + Message" where
  "message_of_chunks TextDecoder_decode chunks =
     (let payloads = map (\<lambda>c. payload (fst c)) chunks;
          totalLen = foldl (\<lambda>acc p. acc + length p) 0 payloads
      in case copy_payloads (new_Uint8Array totalLen) payloads 0 of
           Inl e \<Rightarrow> Inl e
         | Inr combined \<Rightarrow>
             (case chunks of
                [] \<Rightarrow> Inl (Thrown ''TypeError'')
              | c0 # rest \<Rightarrow>
                  Inr \<lparr> msg_sender = sender (snd c0),
                        msg_recipient = recipient (snd c0),
                        msg_text = TextDecoder_decode combined,
                        msg_timestamp = timestamp (snd c0),
                        msg_messageId = messageId (fst c0),
                        msg_txSignatures = map (\<lambda>c. signature_or_empty (snd c)) chunks \<rparr>))"

text \<open>
  \<open>chunkGroups\<close> is a \<open>Map\<close> from the hex message id to the chunks pushed for it; its
  iteration order is the order in which the keys were first set, so it is a list of pairs.
  \<open>group_push\<close> is \<open>if (!has(k)) set(k, []); get(k).push(c)\<close>.
\<close>

fun group_push ::
  "string \<Rightarrow> 'c \<Rightarrow> (string \<times> 'c list) list \<Rightarrow> (string \<times> 'c list) list" where
  "group_push k c [] = [(k, [c])]"
| "group_push k c ((k', cs) # groups) =
     (if k' = k then (k', cs @ [c]) # groups else (k', cs) # group_push k c groups)"

text \<open>
  The first loop of \<open>reassembleMessages\<close>. \<open>decryptToBytes\<close> is called outside the
  \<open>try\<close>, so what it throws ends the loop; a frame that does not decode is skipped.
\<close>

fun collect_frames ::
  "kit \<Rightarrow> crypto_lib \<Rightarrow> (bytes \<Rightarrow> string) \<Rightarrow> messenger \<Rightarrow> MessageSentEvent list \<Rightarrow>
   (string \<times> (DecodedMessage \<times> MessageSentEvent) list) list \<Rightarrow> Message list \<Rightarrow>
   error + (string \<times> (DecodedMessage \<times> MessageSentEvent) list) list \<times> Message list" where
  "collect_frames K C TextDecoder_decode m [] chunkGroups standaloneMessages =
     Inr (chunkGroups, standaloneMessages)"
| "collect_frames K C TextDecoder_decode m (event # events) chunkGroups standaloneMessages =
     (case decryptToBytes K C m event of
        Inl e \<Rightarrow> Inl e
      | Inr None \<Rightarrow> collect_frames K C TextDecoder_decode m events chunkGroups standaloneMessages
      | Inr (Some raw) \<Rightarrow>
          (case decodeMessage raw of
             Inl e \<Rightarrow> collect_frames K C TextDecoder_decode m events chunkGroups standaloneMessages
           | Inr decoded \<Rightarrow>
               if totalChunks decoded = 1 then
                 collect_frames K C TextDecoder_decode m events chunkGroups
                   (standaloneMessages @ [standalone_message TextDecoder_decode decoded event])
               else
                 collect_frames K C TextDecoder_decode m events
                   (group_push (hexEncode (messageId decoded)) (decoded, event) chunkGroups)
                   standaloneMessages))"

text \<open>
  The second loop: every group is sorted by \<open>chunkIndex\<close> (the sort is stable) and becomes
  a message when it has as many chunks as the \<open>totalChunks\<close> of its first chunk says.
\<close>

fun finish_groups ::
  "(bytes \<Rightarrow> string) \<Rightarrow> (string \<times> (DecodedMessage \<times> MessageSentEvent) list) list \<Rightarrow>
   Message list \<Rightarrow> error + Message list" where
  "finish_groups TextDecoder_decode [] standaloneMessages = Inr standaloneMessages"
| "finish_groups TextDecoder_decode ((k, chunks) # groups) standaloneMessages =
     (let sorted_chunks = sort_key (\<lambda>c. chunkIndex (fst c)) chunks in
      case sorted_chunks of
        [] \<Rightarrow> Inl (Thrown ''TypeError'')
      | c0 # rest \<Rightarrow>
          if length sorted_chunks \<noteq> totalChunks (fst c0) then
            finish_groups TextDecoder_decode groups standaloneMessages
          else
            (case message_of_chunks TextDecoder_decode sorted_chunks of
               Inl e \<Rightarrow> Inl e
             | Inr msg \<Rightarrow> finish_groups TextDecoder_decode groups (standaloneMessages @ [msg])))"

definition reassembleMessages ::
  "kit \<Rightarrow> crypto_lib \<Rightarrow> (bytes \<Rightarrow> string) \<Rightarrow> messenger \<Rightarrow> MessageSentEvent list \<Rightarrow>
   error + Message list" where
  "reassembleMessages K C TextDecoder_decode m events =
     (case collect_frames K C TextDecoder_decode m events [] [] of
        Inl e \<Rightarrow> Inl e
      | Inr (chunkGroups, standaloneMessages) \<Rightarrow>
          (case finish_groups TextDecoder_decode chunkGroups standaloneMessages of
             Inl e \<Rightarrow> Inl e
           | Inr messages \<Rightarrow> Inr (sort_key msg_timestamp messages)))"



subsection \<open>read\<close>

text \<open>
  The pagination loop \<open>while (allSignatures.length < limit * 10)\<close>, batch size 1000;
  \<open>fetch\<close> is \<open>getSignaturesForAddress\<close> at the program address, as a function of the
  \<open>before\<close> cursor.
\<close>

function fetch_signatures ::
  "(string option \<Rightarrow> error + signature_info list) \<Rightarrow> int \<Rightarrow> string option \<Rightarrow>
   signature_info list \<Rightarrow> error + signature_info list" where
  "fetch_signatures fetch limit before allSignatures =
     (if int (length allSignatures) < limit * 10 then
        (case fetch before of
           Inl e \<Rightarrow> Inl e
         | Inr result \<Rightarrow>
             if length result = 0 then Inr allSignatures
             else if length result < 1000 then Inr (allSignatures @ result)
             else fetch_signatures fetch limit (Some (signature (last result)))
                    (allSignatures @ result))
      else Inr allSignatures)"
  by pat_completeness auto
termination
  by (relation "measure (\<lambda>(fetch, limit, before, allSignatures).
        nat (limit * 10 - int (length allSignatures)))") auto

declare fetch_signatures.simps [simp del]

text \<open>
  The filter \<open>s.blockTime && s.blockTime >= since\<close>: a block time that is \<open>null\<close> or 0 is
  falsy.
\<close>

definition since_filter :: "int \<Rightarrow> signature_info \<Rightarrow> bool" where
  "since_filter since s = (case blockTime s of None \<Rightarrow> False | Some t \<Rightarrow> t \<noteq> 0 \<and> since \<le> t)"

text \<open>
  The inner loop over one batch of at most 20 signatures and the outer loop over the
  batches. A transaction without log messages is skipped by \<open>continue\<close>, before the test
  of the limit.
\<close>

fun read_batch ::
  "kit \<Rightarrow> (string \<Rightarrow> bytes option) \<Rightarrow> rpc_node \<Rightarrow> messenger \<Rightarrow> int \<Rightarrow> signature_info list \<Rightarrow>
   MessageSentEvent list \<Rightarrow> error + MessageSentEvent list" where
  "read_batch K atob rpc m limit [] messages = Inr messages"
| "read_batch K atob rpc m limit (s # batch) messages =
     (case getTransaction rpc (signature s) of
        Inl e \<Rightarrow> Inl e
      | Inr None \<Rightarrow> read_batch K atob rpc m limit batch messages
      | Inr (Some logMessages) \<Rightarrow>
          (let events = parseMessageSentEvents atob (bytes_to_base58 K) logMessages;
               messages' = messages @
                 map (\<lambda>event. event\<lparr>txSignature := Some (signature s)\<rparr>)
                     (filter (\<lambda>event. recipient event = myAddress m) events)
           in if limit \<le> int (length messages') then Inr messages'
              else read_batch K atob rpc m limit batch messages'))"

function read_batches ::
  "kit \<Rightarrow> (string \<Rightarrow> bytes option) \<Rightarrow> rpc_node \<Rightarrow> messenger \<Rightarrow> int \<Rightarrow> signature_info list \<Rightarrow>
   MessageSentEvent list \<Rightarrow> error + MessageSentEvent list" where
  "read_batches K atob rpc m limit allSignatures messages =
     (if allSignatures = [] then Inr messages
      else
        (case read_batch K atob rpc m limit (take 20 allSignatures) messages of
           Inl e \<Rightarrow> Inl e
         | Inr messages' \<Rightarrow>
             if limit \<le> int (length messages') then Inr messages'
             else read_batches K atob rpc m limit (drop 20 allSignatures) messages'))"
  by pat_completeness auto
termination
  by (relation "measure (\<lambda>(K, atob, rpc, m, limit, allSignatures, messages).
        length allSignatures)") auto

declare read_batches.simps [simp del]

text \<open>\<open>messages.slice(0, limit)\<close>: a negative \<open>limit\<close> counts from the end.\<close>

definition slice_to :: "'a list \<Rightarrow> int \<Rightarrow> 'a list" where
  "slice_to xs stop =
     (if stop < 0 then take (nat (int (length xs) + stop)) xs else take (nat stop) xs)"

text \<open>
  \<open>read(options)\<close>: \<open>since'\<close> and \<open>limit'\<close> are \<open>options?.since\<close> and
  \<open>options?.limit\<close>, \<open>None\<close> when they are left out. \<open>read_retained\<close> is the part of
  \<open>read\<close> that follows the filter on the block time: it fetches the transactions of the
  signatures that are left and reassembles their events.
\<close>

definition read_retained ::
  "kit \<Rightarrow> crypto_lib \<Rightarrow> (string \<Rightarrow> bytes option) \<Rightarrow> (bytes \<Rightarrow> string) \<Rightarrow> rpc_node \<Rightarrow> messenger \<Rightarrow>
   int \<Rightarrow> signature_info list \<Rightarrow> error + Message list" where
  "read_retained K C atob TextDecoder_decode rpc m limit allSignatures =
     (case read_batches K atob rpc m limit allSignatures [] of
        Inl e \<Rightarrow> Inl e
      | Inr messages \<Rightarrow> reassembleMessages K C TextDecoder_decode m (slice_to messages limit))"

definition read ::
  "kit \<Rightarrow> crypto_lib \<Rightarrow> (string \<Rightarrow> bytes option) \<Rightarrow> (bytes \<Rightarrow> string) \<Rightarrow> rpc_node \<Rightarrow> messenger \<Rightarrow>
   int option \<Rightarrow> int option \<Rightarrow> error + Message list" where
  "read K C atob TextDecoder_decode rpc m since' limit' =
     (let limit = (case limit' of None \<Rightarrow> 100 | Some l \<Rightarrow> l);
          since = (case since' of None \<Rightarrow> 0 | Some s \<Rightarrow> s)
      in case address K (programId m) of
           Inl e \<Rightarrow> Inl e
         | Inr programAddr \<Rightarrow>
             (case fetch_signatures (getSignaturesForAddress rpc programAddr) limit None [] of
                Inl e \<Rightarrow> Inl e
              | Inr fetched \<Rightarrow>
                  read_retained K C atob TextDecoder_decode rpc m limit
                    (if 0 < since then filter (since_filter since) fetched else fetched)))"

subsection \<open>listen\<close>







subsection \<open>send\<close>

text \<open>
  \<open>send\<close> passes \<open>sender\<close>, \<open>recipient\<close>, \<open>ciphertext\<close>, \<open>nonce\<close> and \<open>programId\<close> to
  the builder: the parameters of the builder's revision that lists the sender as the only
  account (the copy of instructions.ts the repository keeps beside events.ts). Its data are
  those of the builder above.
\<close>

definition buildSendMessageInstruction_sender_only ::
  "kit \<Rightarrow> string \<Rightarrow> string \<Rightarrow> bytes \<Rightarrow> bytes \<Rightarrow> string option \<Rightarrow> error + Instruction" where
  "buildSendMessageInstruction_sender_only K sender' recipient' ct nc programId' =
     (let programId = (case programId' of None \<Rightarrow> DEFAULT_PROGRAM_ID | Some p \<Rightarrow> p) in
      case addressToBytes K recipient' of
        Inl e \<Rightarrow> Inl e
      | Inr recipientBytes \<Rightarrow>
          (case serializeSendMessageData recipientBytes ct nc of
             Inl e \<Rightarrow> Inl e
           | Inr dat \<Rightarrow> make_instruction K programId [(sender', WRITABLE_SIGNER)] dat))"

text \<open>
  The loop \<open>for (const chunk of chunks)\<close>. \<open>randomBytes24 k\<close> is the nonce drawn for the
  \<open>k\<close>-th chunk; \<open>sendInstruction k ix\<close> is what signing, submitting and confirming the
  \<open>k\<close>-th instruction gives: the signature, or what it throws. \<open>chunk_instruction\<close> is
  the first half of the loop body: it encrypts the chunk and builds the instruction.
  Besides the result the model returns the instructions handed to \<open>sendInstruction\<close>, in
  order.
\<close>

definition chunk_instruction ::
  "kit \<Rightarrow> crypto_lib \<Rightarrow> (nat \<Rightarrow> bytes) \<Rightarrow> messenger \<Rightarrow> string \<Rightarrow> bytes \<Rightarrow> bytes \<Rightarrow> nat \<Rightarrow> bytes \<Rightarrow>
   error + Instruction" where
  "chunk_instruction K C randomBytes24 m recipient' encryptionSecretKey encryptToBytes k chunk =
     (case encrypt C (randomBytes24 k) chunk encryptionSecretKey encryptToBytes of
        Inl e \<Rightarrow> Inl e
      | Inr (ct, nc) \<Rightarrow>
          buildSendMessageInstruction_sender_only K (myAddress m) recipient' ct nc
            (Some (programId m)))"

fun send_chunks ::
  "kit \<Rightarrow> crypto_lib \<Rightarrow> (nat \<Rightarrow> bytes) \<Rightarrow> (nat \<Rightarrow> Instruction \<Rightarrow> error + string) \<Rightarrow> messenger \<Rightarrow>
   string \<Rightarrow> bytes \<Rightarrow> bytes \<Rightarrow> nat \<Rightarrow> bytes list \<Rightarrow> Instruction list \<Rightarrow> string list \<Rightarrow>
   Instruction list \<times> (error + string list)" where
  "send_chunks K C randomBytes24 sendInstruction m recipient' encryptionSecretKey encryptToBytes
       k [] submitted signatures = (submitted, Inr signatures)"
| "send_chunks K C randomBytes24 sendInstruction m recipient' encryptionSecretKey encryptToBytes
       k (chunk # chunks) submitted signatures =
     (case chunk_instruction K C randomBytes24 m recipient' encryptionSecretKey encryptToBytes
             k chunk of
        Inl e \<Rightarrow> (submitted, Inl e)
      | Inr ix \<Rightarrow>
          (case sendInstruction k ix of
             Inl e \<Rightarrow> (submitted @ [ix], Inl e)
           | Inr sig \<Rightarrow>
               send_chunks K C randomBytes24 sendInstruction m recipient' encryptionSecretKey
                 encryptToBytes (Suc k) chunks (submitted @ [ix]) (signatures @ [sig])))"

text \<open>
  The key the chunks are encrypted to (a looked-up key that is the empty string is falsy,
  like \<open>null\<close>) and the secret key they are encrypted with
  (\<open>this.keypairBytes ?? this.encryptionKeypair?.secretKey\<close>).
\<close>

definition resolve_encryption_key ::
  "kit \<Rightarrow> (string \<Rightarrow> bytes) \<Rightarrow> rpc_node \<Rightarrow> messenger \<Rightarrow> string \<Rightarrow> bytes option \<Rightarrow> error + bytes" where
  "resolve_encryption_key K from_base64 rpc m recipient' encryptionPubkey =
     (case encryptionPubkey of
        Some k \<Rightarrow> Inr k
      | None \<Rightarrow>
          if initialized m then
            (case lookupEncryptionKey K from_base64 rpc recipient' (Some (programId m)) of
               Inl e \<Rightarrow> Inl e
             | Inr lookedUp \<Rightarrow>
                 (case lookedUp of
                    None \<Rightarrow> addressToBytes K recipient'
                  | Some a \<Rightarrow> if a = [] then addressToBytes K recipient'
                              else addressToBytes K a))
          else addressToBytes K recipient')"

definition encryption_secret_key :: "messenger \<Rightarrow> bytes option" where
  "encryption_secret_key m =
     (case keypairBytes m of
        Some kb \<Rightarrow> Some kb
      | None \<Rightarrow> map_option snd (encryptionKeypair m))"

text \<open>\<open>send(recipient, message, encryptionPubkey)\<close>.\<close>

definition send ::
  "kit \<Rightarrow> crypto_lib \<Rightarrow> (string \<Rightarrow> bytes) \<Rightarrow> (string \<Rightarrow> bytes) \<Rightarrow> rpc_node \<Rightarrow> bytes \<Rightarrow> (nat \<Rightarrow> bytes) \<Rightarrow>
   (nat \<Rightarrow> Instruction \<Rightarrow> error + string) \<Rightarrow> messenger \<Rightarrow> string \<Rightarrow> string \<Rightarrow> bytes option \<Rightarrow>
   Instruction list \<times> (error + string list)" where
  "send K C TextEncoder_encode from_base64 rpc randomMessageId randomBytes24 sendInstruction m
       recipient' message encryptionPubkey =
     (case encodeMessage TextEncoder_encode randomMessageId message of
        Inl e \<Rightarrow> ([], Inl e)
      | Inr chunks \<Rightarrow>
          (case resolve_encryption_key K from_base64 rpc m recipient' encryptionPubkey of
             Inl e \<Rightarrow> ([], Inl e)
           | Inr encryptToBytes \<Rightarrow>
               (case encryption_secret_key m of
                  None \<Rightarrow> ([], Inl NoEncryptionKey)
                | Some encryptionSecretKey \<Rightarrow>
                    send_chunks K C randomBytes24 sendInstruction m recipient' encryptionSecretKey
                      encryptToBytes 0 chunks [] [])))"


section \<open>Reassembly, described by groups\<close>













section \<open>Concrete inputs\<close>

text \<open>
  Values the closed theorems below are evaluated at. \<open>ascii_encode\<close> is what
  \<open>TextEncoder\<close> does on ASCII text: one byte per character.
\<close>

definition ascii_encode :: "string \<Rightarrow> bytes" where
  "ascii_encode s = map (\<lambda>c. of_nat (of_char c)) s"

definition sample_message_id :: bytes where
  "sample_message_id = [1, 2, 3, 4, 5, 6, 7, 8]"

text \<open>
  A stand-in for @solana/kit that writes an address with one character per byte, takes
  every string of 32 to 44 characters for an address, and derives the registry address of
  a wallet by shifting every byte of the wallet's address by 32.
\<close>

definition bytewise_kit :: kit where
  "bytewise_kit =
     \<lparr> base58_to_bytes = (\<lambda>s. Inr (map (\<lambda>c. of_nat (of_char c)) s)),
       bytes_to_base58 = (\<lambda>bs. map (\<lambda>b. char_of (unat b)) bs),
       is_address = (\<lambda>s. 32 \<le> length s \<and> length s \<le> 44),
       getProgramDerivedAddress = (\<lambda>p seeds. Inr (map (\<lambda>b. char_of (unat b + 32)) (last seeds))) \<rparr>"

definition alice :: string where
  "alice = replicate 32 CHR ''A''"

definition bob :: string where
  "bob = replicate 32 CHR ''B''"

definition carol :: string where
  "carol = replicate 32 CHR ''C''"

definition dave :: string where
  "dave = replicate 32 CHR ''D''"

definition sample_nonce :: bytes where
  "sample_nonce = replicate 24 7"

definition sample_ciphertext :: bytes where
  "sample_ciphertext = [1, 2, 3]"

definition sample_key :: bytes where
  "sample_key = replicate 32 9"

definition sample_pda :: string where
  "sample_pda = replicate 32 CHR ''P''"

text \<open>
  A stand-in for the box of tweetnacl and the key conversion of ed2curve: keys are 32
  bytes, the secret key of an identity is its public key, a box is the message behind a tag
  of 32 bytes made of the two keys, and both operations throw on a nonce that is not 24
  bytes long. \<open>keypair_of a\<close> is the 64-byte keypair of the identity with address \<open>a\<close>.
\<close>

definition toy_tag :: "bytes \<Rightarrow> bytes \<Rightarrow> bytes" where
  "toy_tag pk sk = map (\<lambda>(a, b). a XOR b) (zip pk sk)"

definition toy_crypto :: crypto_lib where
  "toy_crypto =
     \<lparr> convertPublicKey = (\<lambda>pk. if length pk = 32 then Some pk else None),
       convertSecretKey = take 32,
       box = (\<lambda>msg nc pk sk.
                if length nc \<noteq> 24 then Inl (Thrown ''bad nonce size'')
                else Inr (toy_tag pk sk @ msg)),
       box_open = (\<lambda>ct nc pk sk.
                if length nc \<noteq> 24 then Inl (Thrown ''bad nonce size'')
                else if 32 \<le> length ct \<and> take 32 ct = toy_tag pk sk then Inr (Some (drop 32 ct))
                else Inr None) \<rparr>"

definition address_bytes :: "string \<Rightarrow> bytes" where
  "address_bytes a = map (\<lambda>c. of_nat (of_char c)) a"

definition keypair_of :: "string \<Rightarrow> bytes" where
  "keypair_of a = address_bytes a @ address_bytes a"

definition ascii_decode :: "bytes \<Rightarrow> string" where
  "ascii_decode bs = map (\<lambda>b. char_of (unat b)) bs"

text \<open>
  Base64 as \<open>atob\<close> reads it (white space is dropped, up to two \<open>=\<close> at the end of input
  whose length is a multiple of four are dropped, and input with another character or
  with a length of 1 modulo 4 is refused), and as \<open>Buffer.from(s, "base64")\<close> reads it
  (characters outside the alphabet are dropped).
\<close>

definition base64_alphabet :: string where
  "base64_alphabet = ''ABCDEFGHIJKLMNOPQRSTUVWXYZabcdefghijklmnopqrstuvwxyz0123456789+/''"

fun position_in :: "'a list \<Rightarrow> 'a \<Rightarrow> nat option" where
  "position_in [] c = None"
| "position_in (x # xs) c = (if x = c then Some 0 else map_option Suc (position_in xs c))"

fun base64_groups :: "nat list \<Rightarrow> bytes" where
  "base64_groups (a # b # c # d # rest) =
     of_nat (a * 4 + b div 16) # of_nat (b mod 16 * 16 + c div 4) # of_nat (c mod 4 * 64 + d) #
     base64_groups rest"
| "base64_groups [a, b, c] = [of_nat (a * 4 + b div 16), of_nat (b mod 16 * 16 + c div 4)]"
| "base64_groups [a, b] = [of_nat (a * 4 + b div 16)]"
| "base64_groups [a] = []"
| "base64_groups [] = []"

definition strip_padding :: "string \<Rightarrow> string" where
  "strip_padding s =
     (if length s mod 4 \<noteq> 0 then s
      else if 2 \<le> length s \<and> drop (length s - 2) s = ''=='' then take (length s - 2) s
      else if 1 \<le> length s \<and> drop (length s - 1) s = ''='' then take (length s - 1) s
      else s)"

definition atob_decode :: "string \<Rightarrow> bytes option" where
  "atob_decode s =
     (let t = strip_padding (filter (\<lambda>c. (of_char c :: nat) \<notin> {9, 10, 12, 13, 32}) s)
      in if length t mod 4 = 1 then None
         else if list_ex (\<lambda>c. position_in base64_alphabet c = None) t then None
         else Some (base64_groups (map (\<lambda>c. the (position_in base64_alphabet c)) t)))"

definition buffer_from_base64 :: "string \<Rightarrow> bytes" where
  "buffer_from_base64 s =
     base64_groups (map (\<lambda>c. the (position_in base64_alphabet c))
       (filter (\<lambda>c. position_in base64_alphabet c \<noteq> None) s))"

text \<open>
  An RPC node that knows four registry accounts: one with 88 bytes of data (eight zero
  bytes, 32 bytes 65, 32 bytes 9, 16 zero bytes), one with 50 bytes (the same, cut after
  ten bytes of the key), one whose lookup fails, and none for every other address.
\<close>

definition registry_node :: rpc_node where
  "registry_node =
     \<lparr> getSignaturesForAddress = (\<lambda>program before. Inr []),
       getTransaction = (\<lambda>sig. Inr None),
       getAccountInfo = (\<lambda>a.
         if a = replicate 32 CHR ''a'' then
           Inr (Some (DataPair ''AAAAAAAAAABBQUFBQUFBQUFBQUFBQUFBQUFBQUFBQUFBQUFBQUFBQQkJCQkJCQkJCQkJCQkJCQkJCQkJCQkJCQkJCQkJCQkJAAAAAAAAAAAAAAAAAAAAAA==''))
         else if a = replicate 32 CHR ''b'' then
           Inr (Some (DataPair ''AAAAAAAAAABBQUFBQUFBQUFBQUFBQUFBQUFBQUFBQUFBQUFBQUFBQQkJCQkJCQkJCQk=''))
         else if a = replicate 32 CHR ''c'' then Inl (Thrown ''429 Too Many Requests'')
         else Inr None) \<rparr>"

text \<open>
  Log lines of \<open>MessageSent\<close> events from \<open>alice\<close> to \<open>bob\<close>, boxed with \<open>toy_crypto\<close>:
  the standalone messages "gm" (message id 1 to 8, timestamp 1700000000) and "no" (message
  id eight times 9, timestamp 1700000001), and the two chunks "hel" and "lo" of a message
  with message id eight times 9 (timestamps 1700000010 and 1700000011). The last line is a
  chunk with the same message id, chunk index 1 of 2 and payload "LO", sent by \<open>carol\<close>
  (timestamp 1700000012).
\<close>

definition log_gm :: string where
  "log_gm = ''Program data: dEbgTIAcbjdBQUFBQUFBQUFBQUFBQUFBQUFBQUFBQUFBQUFBQUFBQUJCQkJCQkJCQkJCQkJCQkJCQkJCQkJCQkJCQkJCQkJCLwAAAAMDAwMDAwMDAwMDAwMDAwMDAwMDAwMDAwMDAwMDAwMDAAECAwQFBgcIAAAAAWdtBwcHBwcHBwcHBwcHBwcHBwcHBwcHBwcHAPFTZQAAAAA=''"

definition log_no :: string where
  "log_no = ''Program data: dEbgTIAcbjdBQUFBQUFBQUFBQUFBQUFBQUFBQUFBQUFBQUFBQUFBQUJCQkJCQkJCQkJCQkJCQkJCQkJCQkJCQkJCQkJCQkJCLwAAAAMDAwMDAwMDAwMDAwMDAwMDAwMDAwMDAwMDAwMDAwMDAAkJCQkJCQkJAAAAAW5vBwcHBwcHBwcHBwcHBwcHBwcHBwcHBwcHAfFTZQAAAAA=''"

definition log_chunk0 :: string where
  "log_chunk0 = ''Program data: dEbgTIAcbjdBQUFBQUFBQUFBQUFBQUFBQUFBQUFBQUFBQUFBQUFBQUJCQkJCQkJCQkJCQkJCQkJCQkJCQkJCQkJCQkJCQkJCMAAAAAMDAwMDAwMDAwMDAwMDAwMDAwMDAwMDAwMDAwMDAwMDAQkJCQkJCQkJAAAAAmhlbAcHBwcHBwcHBwcHBwcHBwcHBwcHBwcHBwrxU2UAAAAA''"

definition log_chunk1 :: string where
  "log_chunk1 = ''Program data: dEbgTIAcbjdBQUFBQUFBQUFBQUFBQUFBQUFBQUFBQUFBQUFBQUFBQUJCQkJCQkJCQkJCQkJCQkJCQkJCQkJCQkJCQkJCQkJCLwAAAAMDAwMDAwMDAwMDAwMDAwMDAwMDAwMDAwMDAwMDAwMDAQkJCQkJCQkJAAEAAmxvBwcHBwcHBwcHBwcHBwcHBwcHBwcHBwcHC/FTZQAAAAA=''"

definition log_chunk1_carol :: string where
  "log_chunk1_carol = ''Program data: dEbgTIAcbjdDQ0NDQ0NDQ0NDQ0NDQ0NDQ0NDQ0NDQ0NDQ0NDQ0NDQ0JCQkJCQkJCQkJCQkJCQkJCQkJCQkJCQkJCQkJCQkJCLwAAAAEBAQEBAQEBAQEBAQEBAQEBAQEBAQEBAQEBAQEBAQEBAQkJCQkJCQkJAAEAAkxPBwcHBwcHBwcHBwcHBwcHBwcHBwcHBwcHDPFTZQAAAAA=''"

text \<open>
  The log line of a complete \<open>MessageSent\<close> event from \<open>alice\<close> to \<open>bob\<close>: the
  standalone message "gm" again, with the timestamp 2147483648 (19 January 2038,
  03:14:08 UTC), whose eight bytes are \<open>00 00 00 80 00 00 00 00\<close>.
\<close>

definition log_2038 :: string where
  "log_2038 = ''Program data: dEbgTIAcbjdBQUFBQUFBQUFBQUFBQUFBQUFBQUFBQUFBQUFBQUFBQUJCQkJCQkJCQkJCQkJCQkJCQkJCQkJCQkJCQkJCQkJCLwAAAAMDAwMDAwMDAwMDAwMDAwMDAwMDAwMDAwMDAwMDAwMDAAECAwQFBgcIAAAAAWdtBwcHBwcHBwcHBwcHBwcHBwcHBwcHBwcHAAAAgAAAAAA=''"

text \<open>
  The messenger of \<open>bob\<close> in self-custody mode, and an RPC node with three signatures for
  the program: \<open>sig1\<close> (block time 1700000000, the message "gm"), \<open>sig2\<close> (no block
  time, the message "no") and \<open>sig3\<close> (block time 1600000000, the message "no"). The
  second node answers the same signatures but fails to fetch \<open>sig2\<close> and \<open>sig3\<close>.
\<close>

definition bob_messenger :: messenger where
  "bob_messenger =
     \<lparr> myAddress = bob, programId = DEFAULT_PROGRAM_ID, initialized = True,
       keypairBytes = Some (keypair_of bob), encryptionKeypair = None \<rparr>"

definition history_signatures :: "signature_info list" where
  "history_signatures =
     [\<lparr> signature = ''sig1'', blockTime = Some 1700000000 \<rparr>,
      \<lparr> signature = ''sig2'', blockTime = None \<rparr>,
      \<lparr> signature = ''sig3'', blockTime = Some 1600000000 \<rparr>]"

definition history_node :: rpc_node where
  "history_node =
     \<lparr> getSignaturesForAddress = (\<lambda>program before.
         if before = None then Inr history_signatures else Inr []),
       getTransaction = (\<lambda>sig.
         if sig = ''sig1'' then Inr (Some [''Program log: Instruction: SendMessage'', log_gm])
         else if sig = ''sig2'' then Inr (Some [log_no])
         else if sig = ''sig3'' then Inr (Some [log_no])
         else Inr None),
       getAccountInfo = (\<lambda>a. Inr None) \<rparr>"

definition failing_history_node :: rpc_node where
  "failing_history_node =
     \<lparr> getSignaturesForAddress = (\<lambda>program before.
         if before = None then Inr history_signatures else Inr []),
       getTransaction = (\<lambda>sig.
         if sig = ''sig1'' then Inr (Some [''Program log: Instruction: SendMessage'', log_gm])
         else Inl (Thrown ''503 Service Unavailable'')),
       getAccountInfo = (\<lambda>a. Inr None) \<rparr>"

text \<open>
  The messenger of \<open>alice\<close> in self-custody mode, before \<open>init\<close>; a source of
  randomness that always draws \<open>sample_nonce\<close>; and three ways a submission can go: every
  instruction lands (the \<open>k\<close>-th with signature \<open>sig\<close> followed by the digit \<open>k\<close>),
  only the first lands, none lands.
\<close>

definition alice_messenger :: messenger where
  "alice_messenger =
     \<lparr> myAddress = alice, programId = DEFAULT_PROGRAM_ID, initialized = False,
       keypairBytes = Some (keypair_of alice), encryptionKeypair = None \<rparr>"

definition constant_nonce :: "nat \<Rightarrow> bytes" where
  "constant_nonce k = sample_nonce"

definition submit_all_land :: "nat \<Rightarrow> Instruction \<Rightarrow> error + string" where
  "submit_all_land k ix = Inr (''sig'' @ [hex_digit k])"

definition submit_second_fails :: "nat \<Rightarrow> Instruction \<Rightarrow> error + string" where
  "submit_second_fails k ix =
     (if k = 0 then Inr ''sig0'' else Inl (Thrown ''blockhash expired''))"

definition submit_first_fails :: "nat \<Rightarrow> Instruction \<Rightarrow> error + string" where
  "submit_first_fails k ix = Inl (Thrown ''blockhash expired'')"

text \<open>The instruction \<open>alice\<close> sends to \<open>bob\<close> for a frame, under the stand-ins.\<close>

definition alice_to_bob_instruction :: "bytes \<Rightarrow> Instruction" where
  "alice_to_bob_instruction frame =
     \<lparr> programAddress = DEFAULT_PROGRAM_ID,
       accounts = [\<lparr> acc_address = alice, acc_role = WRITABLE_SIGNER \<rparr>],
       data = SEND_MESSAGE_DISC @ address_bytes bob @ u32le (32 + length frame) @
              (replicate 32 3 @ frame) @ sample_nonce \<rparr>"

text \<open>A text of 700 characters, which takes two chunks, and its two frames.\<close>

definition long_text :: string where
  "long_text = replicate 700 CHR ''a''"

definition long_text_frame :: "nat \<Rightarrow> bytes" where
  "long_text_frame i =
     frame_bytes FLAGS_CHUNKED sample_message_id i 2 (chunk_of (ascii_encode long_text) i)"


text \<open>
  The events of the lines \<open>log_chunk0\<close>, \<open>log_chunk1\<close> and \<open>log_chunk1_carol\<close>.
\<close>

definition event_chunk0 :: MessageSentEvent where
  "event_chunk0 =
     \<lparr> sender = alice, recipient = bob,
       ciphertext = replicate 32 3 @ [1, 9, 9, 9, 9, 9, 9, 9, 9, 0, 0, 0, 2, 104, 101, 108],
       nonce = sample_nonce, timestamp = 1700000010, txSignature = None \<rparr>"

definition event_chunk1 :: MessageSentEvent where
  "event_chunk1 =
     \<lparr> sender = alice, recipient = bob,
       ciphertext = replicate 32 3 @ [1, 9, 9, 9, 9, 9, 9, 9, 9, 0, 1, 0, 2, 108, 111],
       nonce = sample_nonce, timestamp = 1700000011, txSignature = None \<rparr>"

definition event_chunk1_carol :: MessageSentEvent where
  "event_chunk1_carol =
     \<lparr> sender = carol, recipient = bob,
       ciphertext = replicate 32 1 @ [1, 9, 9, 9, 9, 9, 9, 9, 9, 0, 1, 0, 2, 76, 79],
       nonce = sample_nonce, timestamp = 1700000012, txSignature = None \<rparr>"
section \<open>Frame codec: properties\<close>

lemma set_bytes_at:
  "length pre = off \<Longrightarrow> length src = length old \<Longrightarrow>
   set_bytes (pre @ old @ post) src off = Inr (pre @ src @ post)"
  by (simp add: set_bytes_def)

lemma put_byte_at:
  "length pre = i \<Longrightarrow> put_byte (pre @ x # post) i v = pre @ of_nat v # post"
  by (auto simp: put_byte_def)

lemma writeU16BE_at:
  "length pre = off \<Longrightarrow>
   writeU16BE (pre @ x # y # post) v off =
     pre @ of_nat (drop_bit 8 v AND 255) # of_nat (v AND 255) # post"
proof -
  assume l: "length pre = off"
  have a: "put_byte (pre @ x # y # post) off (drop_bit 8 v AND 255)
           = pre @ of_nat (drop_bit 8 v AND 255) # y # post"
    using l by (rule put_byte_at)
  have b: "put_byte ((pre @ [of_nat (drop_bit 8 v AND 255)]) @ y # post) (off + 1) (v AND 255)
           = (pre @ [of_nat (drop_bit 8 v AND 255)]) @ of_nat (v AND 255) # post"
    by (rule put_byte_at) (simp add: l)
  show ?thesis unfolding writeU16BE_def a using b by simp
qed

lemma build_frame_bytes:
  assumes mid: "length mid = 8"
  shows "build_frame flag mid idx tot body = Inr (frame_bytes flag mid idx tot body)"
proof -
  let ?z = "0 :: u8"
  let ?n = "length body"
  let ?f = "of_nat flag :: u8"
  let ?i = "[of_nat (drop_bit 8 idx AND 255), of_nat (idx AND 255)] :: bytes"
  let ?t = "[of_nat (drop_bit 8 tot AND 255), of_nat (tot AND 255)] :: bytes"
  have s0: "new_Uint8Array (HEADER_SIZE + ?n)
            = [] @ ?z # (replicate 8 ?z @ [?z, ?z, ?z, ?z] @ replicate ?n ?z)"
    by (simp add: new_Uint8Array_def HEADER_SIZE_def replicate_add[symmetric] flip: replicate_Suc replicate_append_same)
  have s1: "put_byte (new_Uint8Array (HEADER_SIZE + ?n)) 0 flag
            = [?f] @ replicate 8 ?z @ ([?z, ?z, ?z, ?z] @ replicate ?n ?z)"
    unfolding s0 by (subst put_byte_at) simp_all
  have s2: "set_bytes ([?f] @ replicate 8 ?z @ ([?z, ?z, ?z, ?z] @ replicate ?n ?z)) mid 1
            = Inr ([?f] @ mid @ ([?z, ?z, ?z, ?z] @ replicate ?n ?z))"
    by (rule set_bytes_at) (simp_all add: mid)
  have s3: "writeU16BE ([?f] @ mid @ ([?z, ?z, ?z, ?z] @ replicate ?n ?z)) idx 9
            = (?f # mid @ ?i) @ ?z # ?z # replicate ?n ?z"
    using writeU16BE_at[of "?f # mid" 9 ?z ?z "?z # ?z # replicate ?n ?z" idx]
    by (simp add: mid)
  have s4: "writeU16BE ((?f # mid @ ?i) @ ?z # ?z # replicate ?n ?z) tot 11
            = (?f # mid @ ?i @ ?t) @ replicate ?n ?z @ []"
    using writeU16BE_at[of "?f # mid @ ?i" 11 ?z ?z "replicate ?n ?z" tot]
    by (simp add: mid)
  have s5: "set_bytes ((?f # mid @ ?i @ ?t) @ replicate ?n ?z @ []) body HEADER_SIZE
            = Inr ((?f # mid @ ?i @ ?t) @ body @ [])"
    by (rule set_bytes_at) (simp_all add: mid HEADER_SIZE_def)
  show ?thesis
    unfolding build_frame_def Let_def s1 s2 sum.case s3 s4 s5
    by (simp add: frame_bytes_def)
qed

lemma and_255: "(x::nat) AND 255 = take_bit 8 x"
proof -
  have "(255::nat) = mask 8" by (simp add: mask_eq_exp_minus_1)
  thus ?thesis by (simp add: take_bit_eq_mask)
qed

lemma u16_bits: "push_bit 8 (drop_bit 8 v AND 255) OR (v AND 255) = (v::nat) mod 65536"
proof -
  have "push_bit 8 (take_bit 8 (drop_bit 8 v)) OR take_bit 8 v = take_bit 16 v"
    by (rule bit_eqI) (auto simp: bit_simps)
  thus ?thesis by (simp add: take_bit_eq_mod and_255)
qed

lemma byte_of_and_255: "unat (of_nat (x AND 255) :: u8) = x AND 255"
  by (simp add: and_255 unat_of_nat take_bit_eq_mod)

lemma u16_roundtrip:
  "push_bit 8 (unat (of_nat (drop_bit 8 v AND 255) :: u8)) OR unat (of_nat (v AND 255) :: u8)
   = v mod 65536"
  by (simp only: byte_of_and_255 u16_bits)

lemma decode_frame_bytes:
  assumes mid: "length mid = 8"
  shows "decodeMessage (frame_bytes flag mid idx tot body) =
     Inr \<lparr> flags = flag mod 256, messageId = mid, chunkIndex = idx mod 65536,
           totalChunks = tot mod 65536, payload = body \<rparr>"
proof -
  let ?fr = "frame_bytes flag mid idx tot body"
  have len: "length ?fr = 13 + length body" by (simp add: frame_bytes_def mid)
  have n9: "?fr ! 9 = of_nat (drop_bit 8 idx AND 255)" and n10: "?fr ! 10 = of_nat (idx AND 255)"
   and n11: "?fr ! 11 = of_nat (drop_bit 8 tot AND 255)" and n12: "?fr ! 12 = of_nat (tot AND 255)"
    by (simp_all add: frame_bytes_def nth_Cons' nth_append mid)
  have "readU16BE ?fr 9 = push_bit 8 (unat (?fr ! 9)) OR unat (?fr ! 10)"
    by (simp add: readU16BE_def get_byte_def len)
  hence ci: "readU16BE ?fr 9 = idx mod 65536"
    unfolding n9 n10 by (simp only: u16_roundtrip)
  have "readU16BE ?fr 11 = push_bit 8 (unat (?fr ! 11)) OR unat (?fr ! 12)"
    by (simp add: readU16BE_def get_byte_def len)
  hence tc: "readU16BE ?fr 11 = tot mod 65536"
    unfolding n11 n12 by (simp only: u16_roundtrip)
  have fl: "unat (?fr ! 0) = flag mod 256"
    by (simp add: frame_bytes_def unat_of_nat)
  have mi: "slice_bytes ?fr 1 9 = mid" by (simp add: slice_bytes_def frame_bytes_def mid)
  have pl: "slice_from ?fr HEADER_SIZE = body"
    by (simp add: slice_from_def frame_bytes_def mid HEADER_SIZE_def)
  show ?thesis
    unfolding decodeMessage_def ci tc fl mi pl by (simp add: len HEADER_SIZE_def)
qed


lemma encode_chunks_frames:
  assumes mid: "length mid = 8"
  shows "encode_chunks body mid tot i chunks =
     Inr (chunks @ map (\<lambda>j. frame_bytes FLAGS_CHUNKED mid j tot (chunk_of body j)) [i..<tot])"
proof (induction "tot - i" arbitrary: i chunks)
  case 0
  then show ?case by (subst encode_chunks.simps) simp
next
  case (Suc k)
  hence lt: "i < tot" and k: "k = tot - Suc i" by simp_all
  let ?fr = "frame_bytes FLAGS_CHUNKED mid i tot (chunk_of body i)"
  have bf: "build_frame FLAGS_CHUNKED mid i tot (chunk_of body i) = Inr ?fr"
    using mid by (rule build_frame_bytes)
  have "encode_chunks body mid tot i chunks = encode_chunks body mid tot (Suc i) (chunks @ [?fr])"
    by (subst encode_chunks.simps) (simp add: lt Let_def bf[unfolded chunk_of_def] chunk_of_def)
  also have "\<dots> = Inr ((chunks @ [?fr]) @
      map (\<lambda>j. frame_bytes FLAGS_CHUNKED mid j tot (chunk_of body j)) [Suc i..<tot])"
    using k by (rule Suc.hyps(1))
  also have "\<dots> = Inr (chunks @
      map (\<lambda>j. frame_bytes FLAGS_CHUNKED mid j tot (chunk_of body j)) [i..<tot])"
    using lt by (simp add: upt_conv_Cons)
  finally show ?case .
qed

lemma concat_chunks_take:
  "concat (map (chunk_of body) [0..<n]) = take (n * MAX_PAYLOAD_SIZE) body"
proof (induction n)
  case 0
  show ?case by simp
next
  case (Suc n)
  let ?k = MAX_PAYLOAD_SIZE
  have "chunk_of body n = drop (n * ?k) (take (n * ?k + ?k) body)"
    by (simp add: chunk_of_def slice_bytes_def min_def)
  also have "\<dots> = take ?k (drop (n * ?k) body)"
    by (simp add: drop_take)
  finally have c: "chunk_of body n = take ?k (drop (n * ?k) body)" .
  have "take (n * ?k) body @ chunk_of body n = take (n * ?k + ?k) body"
    unfolding c by (rule take_add[symmetric])
  thus ?case using Suc by (simp add: add.commute)
qed

lemma ceil_chunks_cover:
  "n \<le> ((n + 660) div 661) * (661::nat)"
proof -
  have "(n + 660) mod 661 < 661" by simp
  moreover have "(n + 660) div 661 * 661 + (n + 660) mod 661 = n + 660"
    by (rule div_mult_mod_eq)
  ultimately show ?thesis by linarith
qed

lemma encodeMessage_chunked:
  assumes mid: "length mid = 8" and big: "MAX_PAYLOAD_SIZE < length (enc s)"
  shows "encodeMessage enc mid s =
     Inr (map (\<lambda>j. frame_bytes FLAGS_CHUNKED mid j ((length (enc s) + 660) div 661) (chunk_of (enc s) j))
            [0..<(length (enc s) + 660) div 661])"
  using big unfolding encodeMessage_def Let_def encode_chunks_frames[OF mid]
  by (simp add: MAX_PAYLOAD_SIZE_def)

lemma encodeMessage_standalone:
  assumes mid: "length mid = 8" and small: "length (enc s) \<le> MAX_PAYLOAD_SIZE"
  shows "encodeMessage enc mid s = Inr [frame_bytes FLAGS_STANDALONE mid 0 1 (enc s)]"
  using small unfolding encodeMessage_def Let_def build_frame_bytes[OF mid]
  by simp


lemma decoded_chunks:
  assumes mid: "length mid = 8"
  shows "map decodeMessage (map (\<lambda>j. frame_bytes FLAGS_CHUNKED mid j n (chunk_of body j)) [0..<n])
       = map Inr (map (\<lambda>j. \<lparr> flags = 1, messageId = mid, chunkIndex = j mod 65536,
              totalChunks = n mod 65536, payload = chunk_of body j \<rparr>) [0..<n])"
  by (simp add: decode_frame_bytes[OF mid] FLAGS_CHUNKED_def)

text \<open>
  Claim C1 (frame codec round-trip), as the code has it. For a message id of 8 bytes:
  when the UTF-8 encoding of the text has at most 661 bytes, \<open>encodeMessage\<close> returns
  exactly one frame, which decodes to flags 0, total_chunks 1, chunk_index 0 and the
  encoding as payload. When it has more than 661 bytes, \<open>encodeMessage\<close> returns
  \<open>ceil(len / 661)\<close> frames; every one decodes, with flags 1 and the same message id;
  the payloads concatenated in order are the encoding. The two header fields are 16 bits
  wide: frame \<open>i\<close> carries chunk_index \<open>i mod 65536\<close> and every frame carries total_chunks
  \<open>n mod 65536\<close>, so chunk_index runs \<open>0..n-1\<close> as long as there are at most 65536 frames.
\<close>

theorem frame_codec_roundtrip:
  assumes mid: "length mid = 8"
  shows "(length (enc s) \<le> 661 \<longrightarrow>
            (\<exists>frame. encodeMessage enc mid s = Inr [frame] \<and>
               decodeMessage frame = Inr \<lparr> flags = 0, messageId = mid, chunkIndex = 0,
                                            totalChunks = 1, payload = enc s \<rparr>))
       \<and> (661 < length (enc s) \<longrightarrow>
            (\<exists>frames ds. encodeMessage enc mid s = Inr frames \<and>
               length frames = (length (enc s) + 660) div 661 \<and>
               map decodeMessage frames = map Inr ds \<and>
               (\<forall>i < length ds. flags (ds ! i) = 1 \<and> messageId (ds ! i) = mid \<and>
                    totalChunks (ds ! i) = length frames mod 65536 \<and>
                    chunkIndex (ds ! i) = i mod 65536) \<and>
               concat (map payload ds) = enc s))"
proof (intro conjI impI)
  assume small: "length (enc s) \<le> 661"
  hence e: "encodeMessage enc mid s = Inr [frame_bytes FLAGS_STANDALONE mid 0 1 (enc s)]"
    using encodeMessage_standalone[OF mid, of enc s] by (simp add: MAX_PAYLOAD_SIZE_def)
  have d: "decodeMessage (frame_bytes FLAGS_STANDALONE mid 0 1 (enc s)) =
      Inr \<lparr> flags = 0, messageId = mid, chunkIndex = 0, totalChunks = 1, payload = enc s \<rparr>"
    by (simp add: decode_frame_bytes[OF mid] FLAGS_STANDALONE_def)
  show "\<exists>frame. encodeMessage enc mid s = Inr [frame] \<and>
               decodeMessage frame = Inr \<lparr> flags = 0, messageId = mid, chunkIndex = 0,
                                            totalChunks = 1, payload = enc s \<rparr>"
    using e d by blast
next
  assume big: "661 < length (enc s)"
  let ?n = "(length (enc s) + 660) div 661"
  let ?frames = "map (\<lambda>j. frame_bytes FLAGS_CHUNKED mid j ?n (chunk_of (enc s) j)) [0..<?n]"
  let ?ds = "map (\<lambda>j. \<lparr> flags = 1, messageId = mid, chunkIndex = j mod 65536,
              totalChunks = ?n mod 65536, payload = chunk_of (enc s) j \<rparr>) [0..<?n]"
  have e: "encodeMessage enc mid s = Inr ?frames"
    using encodeMessage_chunked[OF mid, of enc s] big by (simp add: MAX_PAYLOAD_SIZE_def)
  have l: "length ?frames = ?n" by simp
  have d: "map decodeMessage ?frames = map Inr ?ds" by (rule decoded_chunks[OF mid])
  have f: "\<forall>i < length ?ds. flags (?ds ! i) = 1 \<and> messageId (?ds ! i) = mid \<and>
                    totalChunks (?ds ! i) = length ?frames mod 65536 \<and>
                    chunkIndex (?ds ! i) = i mod 65536"
    by simp
  have "concat (map payload ?ds) = concat (map (chunk_of (enc s)) [0..<?n])"
    by (simp add: comp_def)
  also have "\<dots> = take (?n * MAX_PAYLOAD_SIZE) (enc s)" by (rule concat_chunks_take)
  also have "\<dots> = enc s" using ceil_chunks_cover[of "length (enc s)"] by (simp add: MAX_PAYLOAD_SIZE_def)
  finally have c: "concat (map payload ?ds) = enc s" .
  show "\<exists>frames ds. encodeMessage enc mid s = Inr frames \<and>
               length frames = (length (enc s) + 660) div 661 \<and>
               map decodeMessage frames = map Inr ds \<and>
               (\<forall>i < length ds. flags (ds ! i) = 1 \<and> messageId (ds ! i) = mid \<and>
                    totalChunks (ds ! i) = length frames mod 65536 \<and>
                    chunkIndex (ds ! i) = i mod 65536) \<and>
               concat (map payload ds) = enc s"
    using e l d f c by blast
qed

theorem frame_codec_roundtrip_witness:
  "length sample_message_id = 8 \<and>
   length (ascii_encode ''gm'') \<le> 661 \<and>
   (\<exists>frame. encodeMessage ascii_encode sample_message_id ''gm'' = Inr [frame] \<and>
       decodeMessage frame = Inr \<lparr> flags = 0, messageId = sample_message_id, chunkIndex = 0,
                                    totalChunks = 1, payload = ascii_encode ''gm'' \<rparr>) \<and>
   661 < length (ascii_encode (replicate 1500 CHR ''a'')) \<and>
   (\<exists>frames ds. encodeMessage ascii_encode sample_message_id (replicate 1500 CHR ''a'') = Inr frames \<and>
       length frames = 3 \<and>
       map decodeMessage frames = map Inr ds \<and>
       (\<forall>i < length ds. flags (ds ! i) = 1 \<and> messageId (ds ! i) = sample_message_id \<and>
            totalChunks (ds ! i) = 3 \<and> chunkIndex (ds ! i) = i) \<and>
       concat (map payload ds) = ascii_encode (replicate 1500 CHR ''a''))"
proof -
  have m: "length sample_message_id = 8" by (simp add: sample_message_id_def)
  have a: "length (ascii_encode ''gm'') \<le> 661" by (simp add: ascii_encode_def)
  have b: "661 < length (ascii_encode (replicate 1500 CHR ''a''))" by (simp add: ascii_encode_def)
  have n: "(length (ascii_encode (replicate 1500 CHR ''a'')) + 660) div 661 = 3"
    by (simp add: ascii_encode_def)
  from frame_codec_roundtrip[OF m, of ascii_encode "''gm''"] a
  have 1: "\<exists>frame. encodeMessage ascii_encode sample_message_id ''gm'' = Inr [frame] \<and>
       decodeMessage frame = Inr \<lparr> flags = 0, messageId = sample_message_id, chunkIndex = 0,
                                    totalChunks = 1, payload = ascii_encode ''gm'' \<rparr>" by blast
  from frame_codec_roundtrip[OF m, of ascii_encode "replicate 1500 CHR ''a''"] b
  obtain frames ds where
    h: "encodeMessage ascii_encode sample_message_id (replicate 1500 CHR ''a'') = Inr frames"
       "length frames = (length (ascii_encode (replicate 1500 CHR ''a'')) + 660) div 661"
       "map decodeMessage frames = map Inr ds"
       "\<forall>i < length ds. flags (ds ! i) = 1 \<and> messageId (ds ! i) = sample_message_id \<and>
                    totalChunks (ds ! i) = length frames mod 65536 \<and>
                    chunkIndex (ds ! i) = i mod 65536"
       "concat (map payload ds) = ascii_encode (replicate 1500 CHR ''a'')"
    by blast
  have lf: "length frames = 3" using h(2) n by simp
  have ld: "length ds = 3" using h(3) lf by (metis length_map)
  have "\<forall>i < length ds. flags (ds ! i) = 1 \<and> messageId (ds ! i) = sample_message_id \<and>
            totalChunks (ds ! i) = 3 \<and> chunkIndex (ds ! i) = i"
    using h(4) lf ld by auto
  with h(1) lf h(3) h(5) have 2: "\<exists>frames ds. encodeMessage ascii_encode sample_message_id (replicate 1500 CHR ''a'') = Inr frames \<and>
       length frames = 3 \<and>
       map decodeMessage frames = map Inr ds \<and>
       (\<forall>i < length ds. flags (ds ! i) = 1 \<and> messageId (ds ! i) = sample_message_id \<and>
            totalChunks (ds ! i) = 3 \<and> chunkIndex (ds ! i) = i) \<and>
       concat (map payload ds) = ascii_encode (replicate 1500 CHR ''a'')" by blast
  show ?thesis using m a b 1 2 by blast
qed

text \<open>
  The claim as stated (chunk_index running \<open>0..n-1\<close> for every text) fails on a text of
  \<open>661 * 65536 + 1\<close> bytes: there are 65537 frames and the last one carries chunk_index 0.
\<close>

theorem frame_codec_chunk_index_counterexample:
  "\<exists>frames d. encodeMessage ascii_encode sample_message_id (replicate 43319297 CHR ''a'') = Inr frames \<and>
      length frames = 65537 \<and> decodeMessage (frames ! 65536) = Inr d \<and> chunkIndex d = 0"
proof -
  let ?s = "replicate 43319297 CHR ''a''"
  let ?f = "\<lambda>j. frame_bytes FLAGS_CHUNKED sample_message_id j 65537 (chunk_of (ascii_encode ?s) j)"
  have m: "length sample_message_id = 8" by (simp add: sample_message_id_def)
  have len: "length (ascii_encode ?s) = 43319297" by (simp add: ascii_encode_def)
  have n: "(length (ascii_encode ?s) + 660) div 661 = 65537" unfolding len by simp
  have e: "encodeMessage ascii_encode sample_message_id ?s = Inr (map ?f [0..<65537])"
    using encodeMessage_chunked[OF m, of ascii_encode ?s] unfolding n
    by (simp add: len MAX_PAYLOAD_SIZE_def)
  have nth: "map ?f [0..<65537] ! 65536 = ?f 65536"
    by (subst nth_map) simp_all
  have d: "decodeMessage (?f 65536) =
      Inr \<lparr> flags = FLAGS_CHUNKED mod 256, messageId = sample_message_id,
            chunkIndex = 65536 mod 65536, totalChunks = 65537 mod 65536,
            payload = chunk_of (ascii_encode ?s) 65536 \<rparr>"
    by (rule decode_frame_bytes[OF m])
  show ?thesis
    apply (rule exI[of _ "map ?f [0..<65537]"])
    apply (rule exI[of _ "\<lparr> flags = FLAGS_CHUNKED mod 256, messageId = sample_message_id,
            chunkIndex = 65536 mod 65536, totalChunks = 65537 mod 65536,
            payload = chunk_of (ascii_encode ?s) 65536 \<rparr>"])
    apply (simp only: e nth d)
    apply simp
    done
qed

section \<open>Instruction builders: properties\<close>

lemma u32le_length: "length (u32le v) = 4"
  by (simp add: u32le_def Let_def)

lemma split4: 
  fixes m :: nat assumes "m < 4294967296"
  shows "m mod 256 + 256 * (m div 256 mod 256) + 65536 * (m div 65536 mod 256) + 16777216 * (m div 16777216 mod 256) = m"
proof -
  have a: "m = m mod 256 + 256 * (m div 256)" by simp
  have "m div 65536 = m div 256 div 256" by (simp add: div_mult2_eq[symmetric])
  hence b: "m div 256 = m div 256 mod 256 + 256 * (m div 65536)" by simp
  have "m div 16777216 = m div 65536 div 256" by (simp add: div_mult2_eq[symmetric])
  hence c: "m div 65536 = m div 65536 mod 256 + 256 * (m div 16777216)" by simp
  have "m div 16777216 < 256" using assms by simp
  hence d: "m div 16777216 mod 256 = m div 16777216" by simp
  show ?thesis using a b c d by linarith
qed

lemma len8: "LENGTH(8) = 8"
  by simp

lemma u32le_value:
  "unat (u32le v ! 0) + 256 * unat (u32le v ! 1) + 65536 * unat (u32le v ! 2)
     + 16777216 * unat (u32le v ! 3) = v mod 4294967296"
proof -
  let ?w = "of_nat v :: 32 word"
  have m: "unat ?w = v mod 4294967296" by (simp add: unat_of_nat)
  have lt: "unat ?w < 4294967296" using unsigned_less[of ?w] by simp
  have b: "unat (ucast (drop_bit k ?w) :: u8) = unat ?w div 2 ^ k mod 256" for k
  proof -
    have "unat (ucast (drop_bit k ?w) :: u8) = take_bit 8 (unat (drop_bit k ?w))"
      by (simp only: unsigned_ucast_eq len8)
    also have "\<dots> = take_bit 8 (drop_bit k (unat ?w))" by (simp only: unat_drop_bit_eq)
    also have "\<dots> = unat ?w div 2 ^ k mod 256" by (simp add: take_bit_eq_mod drop_bit_eq_div)
    finally show ?thesis .
  qed
  have "unat (u32le v ! 0) + 256 * unat (u32le v ! 1) + 65536 * unat (u32le v ! 2)
     + 16777216 * unat (u32le v ! 3) = unat ?w mod 256 + 256 * (unat ?w div 256 mod 256) + 65536 * (unat ?w div 65536 mod 256) + 16777216 * (unat ?w div 16777216 mod 256)"
    using b[of 0] b[of 8] b[of 16] b[of 24] by (simp add: u32le_def Let_def)
  also have "\<dots> = unat ?w" using lt by (rule split4)
  finally show ?thesis using m by simp
qed

lemma setUint32_le_at:
  "length pre = off \<Longrightarrow> length old = 4 \<Longrightarrow>
   setUint32_le (pre @ old @ post) off v = Inr (pre @ u32le v @ post)"
  by (simp add: setUint32_le_def)

lemma serializeSendMessageData_layout:
  assumes r: "length rb = 32" and n: "length nc = 24"
  shows "serializeSendMessageData rb ct nc = Inr (SEND_MESSAGE_DISC @ rb @ u32le (length ct) @ ct @ nc)"
proof -
  let ?z = "0 :: u8"
  let ?D = SEND_MESSAGE_DISC
  have d: "length ?D = 8" by (simp add: SEND_MESSAGE_DISC_def)
  have s0: "new_Uint8Array (8 + 32 + 4 + length ct + 24)
     = [] @ replicate 8 ?z @ (replicate 32 ?z @ replicate 4 ?z @ replicate (length ct) ?z @ replicate 24 ?z)"
    by (simp add: new_Uint8Array_def flip: replicate_add) 
  have s1: "set_bytes ([] @ replicate 8 ?z @ (replicate 32 ?z @ replicate 4 ?z @ replicate (length ct) ?z @ replicate 24 ?z)) ?D 0
     = Inr ([] @ ?D @ (replicate 32 ?z @ replicate 4 ?z @ replicate (length ct) ?z @ replicate 24 ?z))"
    by (rule set_bytes_at) (simp_all add: d)
  have s2: "set_bytes ([] @ ?D @ (replicate 32 ?z @ replicate 4 ?z @ replicate (length ct) ?z @ replicate 24 ?z)) rb (0 + 8)
     = Inr (?D @ rb @ (replicate 4 ?z @ replicate (length ct) ?z @ replicate 24 ?z))"
    using set_bytes_at[of ?D 8 rb "replicate 32 ?z" "replicate 4 ?z @ replicate (length ct) ?z @ replicate 24 ?z"]
    by (simp add: d r)
  have s3: "setUint32_le (?D @ rb @ (replicate 4 ?z @ replicate (length ct) ?z @ replicate 24 ?z)) (0 + 8 + 32) (length ct)
     = Inr ((?D @ rb) @ u32le (length ct) @ (replicate (length ct) ?z @ replicate 24 ?z))"
    using setUint32_le_at[where pre="?D @ rb" and off=40 and old="replicate 4 ?z" and v="length ct" and post="replicate (length ct) ?z @ replicate 24 ?z"]
    by (simp add: d r)
  have s4: "set_bytes ((?D @ rb) @ u32le (length ct) @ (replicate (length ct) ?z @ replicate 24 ?z)) ct (0 + 8 + 32 + 4)
     = Inr ((?D @ rb @ u32le (length ct)) @ ct @ replicate 24 ?z)"
    using set_bytes_at[of "?D @ rb @ u32le (length ct)" 44 ct "replicate (length ct) ?z" "replicate 24 ?z"]
    by (simp add: d r u32le_length)
  have s5: "set_bytes ((?D @ rb @ u32le (length ct)) @ ct @ replicate 24 ?z) nc (0 + 8 + 32 + 4 + length ct)
     = Inr ((?D @ rb @ u32le (length ct) @ ct) @ nc @ [])"
    using set_bytes_at[of "?D @ rb @ u32le (length ct) @ ct" "44 + length ct" nc "replicate 24 ?z" "[]"]
    by (simp add: d r n u32le_length)
  show ?thesis
    unfolding serializeSendMessageData_def Let_def s0 s1 sum.case s2 s3 s4 s5
    by simp
qed

lemma account_list_ok:
  "list_all (is_address K) (map fst accs) \<Longrightarrow>
   account_list K accs = Inr (map (\<lambda>(a, r). \<lparr> acc_address = a, acc_role = r \<rparr>) accs)"
  by (induction accs) (auto simp: address_def)

lemma make_instruction_ok:
  "is_address K p \<Longrightarrow> list_all (is_address K) (map fst accs) \<Longrightarrow>
   make_instruction K p accs dat =
     Inr \<lparr> programAddress = p, accounts = map (\<lambda>(a, r). \<lparr> acc_address = a, acc_role = r \<rparr>) accs, data = dat \<rparr>"
  by (simp add: make_instruction_def address_def account_list_ok)

lemma disc_into_40:
  assumes d: "length disc = 8"
  shows "set_bytes (new_Uint8Array 40) disc 0 = Inr (disc @ replicate 32 0)"
proof -
  let ?z = "0 :: u8"
  have s0: "new_Uint8Array 40 = [] @ replicate 8 ?z @ replicate 32 ?z"
    by (simp add: new_Uint8Array_def flip: replicate_add)
  have s1: "set_bytes ([] @ replicate 8 ?z @ replicate 32 ?z) disc 0 = Inr ([] @ disc @ replicate 32 ?z)"
    by (rule set_bytes_at) (simp_all add: d)
  show ?thesis unfolding s0 s1 by simp
qed

lemma key_after_disc:
  assumes d: "length disc = 8" and k: "length key = 32"
  shows "set_bytes (disc @ replicate 32 0) key 8 = Inr (disc @ key)"
  using set_bytes_at[of disc 8 key "replicate 32 0" "[]"] by (simp add: d k)

text \<open>
  Claim C2 (instruction wire layout). For a recipient address of 32 bytes and a nonce of
  24 bytes, the data of \<open>buildSendMessageInstruction\<close> are the discriminator
  39 28 22 B2 BD 0A 41 1A, the recipient, the length of the ciphertext as four bytes (least
  significant first, the length modulo \<open>2^32\<close>), the ciphertext and the nonce. For an
  encryption key of 32 bytes the data of \<open>buildRegisterInstruction\<close> are D3 7C 43 0F D3
  C2 B2 F0 and the key, those of \<open>buildUpdateEncryptionKeyInstruction\<close> are 5C E9 1D 65
  98 61 6E EB and the key. The data of \<open>buildDeregisterInstruction\<close> are exactly A1 B2 27
  BD E7 E0 0D BB. Every builder returns when the addresses it is given are addresses.
\<close>

theorem instruction_wire_layout:
  "(addressToBytes K recipient' = Inr rb \<and> length rb = 32 \<and> length nc = 24 \<and>
    is_address K (case programId' of None \<Rightarrow> DEFAULT_PROGRAM_ID | Some p \<Rightarrow> p) \<and>
    list_all (is_address K)
      [sender', configPda, feeVault, recipientRegistryPda, recipient', SYSTEM_PROGRAM] \<longrightarrow>
    (\<exists>ix. buildSendMessageInstruction K sender' recipient' ct nc configPda feeVault
             recipientRegistryPda programId' = Inr ix \<and>
          data ix = [0x39, 0x28, 0x22, 0xB2, 0xBD, 0x0A, 0x41, 0x1A] @ rb @
                    u32le (length ct) @ ct @ nc)) \<and>
   (length (u32le n) = 4 \<and>
    unat (u32le n ! 0) + 256 * unat (u32le n ! 1) + 65536 * unat (u32le n ! 2)
      + 16777216 * unat (u32le n ! 3) = n mod 4294967296) \<and>
   (length encryptionPubkey = 32 \<and>
    is_address K (case programId' of None \<Rightarrow> DEFAULT_PROGRAM_ID | Some p \<Rightarrow> p) \<and>
    list_all (is_address K) [registryPda, owner, SYSTEM_PROGRAM] \<longrightarrow>
    (\<exists>ix. buildRegisterInstruction K owner encryptionPubkey registryPda programId' = Inr ix \<and>
          data ix = [0xD3, 0x7C, 0x43, 0x0F, 0xD3, 0xC2, 0xB2, 0xF0] @ encryptionPubkey)) \<and>
   (length encryptionPubkey = 32 \<and>
    is_address K (case programId' of None \<Rightarrow> DEFAULT_PROGRAM_ID | Some p \<Rightarrow> p) \<and>
    list_all (is_address K) [registryPda, owner] \<longrightarrow>
    (\<exists>ix. buildUpdateEncryptionKeyInstruction K owner encryptionPubkey registryPda programId' = Inr ix \<and>
          data ix = [0x5C, 0xE9, 0x1D, 0x65, 0x98, 0x61, 0x6E, 0xEB] @ encryptionPubkey)) \<and>
   (is_address K (case programId' of None \<Rightarrow> DEFAULT_PROGRAM_ID | Some p \<Rightarrow> p) \<and>
    list_all (is_address K) [registryPda, owner] \<longrightarrow>
    (\<exists>ix. buildDeregisterInstruction K owner registryPda programId' = Inr ix \<and>
          data ix = [0xA1, 0xB2, 0x27, 0xBD, 0xE7, 0xE0, 0x0D, 0xBB]))"
proof (intro conjI impI)
  assume h: "addressToBytes K recipient' = Inr rb \<and> length rb = 32 \<and> length nc = 24 \<and>
    is_address K (case programId' of None \<Rightarrow> DEFAULT_PROGRAM_ID | Some p \<Rightarrow> p) \<and>
    list_all (is_address K)
      [sender', configPda, feeVault, recipientRegistryPda, recipient', SYSTEM_PROGRAM]"
  hence s: "serializeSendMessageData rb ct nc = Inr (SEND_MESSAGE_DISC @ rb @ u32le (length ct) @ ct @ nc)"
    by (simp add: serializeSendMessageData_layout)
  have "buildSendMessageInstruction K sender' recipient' ct nc configPda feeVault
             recipientRegistryPda programId'
        = make_instruction K (case programId' of None \<Rightarrow> DEFAULT_PROGRAM_ID | Some p \<Rightarrow> p)
            [(sender', WRITABLE_SIGNER), (configPda, READONLY), (feeVault, WRITABLE),
                  (recipientRegistryPda, READONLY), (recipient', WRITABLE),
                  (SYSTEM_PROGRAM, READONLY)]
            (SEND_MESSAGE_DISC @ rb @ u32le (length ct) @ ct @ nc)"
    using h s by (simp add: buildSendMessageInstruction_def)
  thus "\<exists>ix. buildSendMessageInstruction K sender' recipient' ct nc configPda feeVault
             recipientRegistryPda programId' = Inr ix \<and>
          data ix = [0x39, 0x28, 0x22, 0xB2, 0xBD, 0x0A, 0x41, 0x1A] @ rb @
                    u32le (length ct) @ ct @ nc"
    using h by (simp add: make_instruction_ok SEND_MESSAGE_DISC_def)
next
  show "length (u32le n) = 4" by (rule u32le_length)
next
  show "unat (u32le n ! 0) + 256 * unat (u32le n ! 1) + 65536 * unat (u32le n ! 2)
      + 16777216 * unat (u32le n ! 3) = n mod 4294967296" by (rule u32le_value)
next
  assume h: "length encryptionPubkey = 32 \<and>
    is_address K (case programId' of None \<Rightarrow> DEFAULT_PROGRAM_ID | Some p \<Rightarrow> p) \<and>
    list_all (is_address K) [registryPda, owner, SYSTEM_PROGRAM]"
  have d: "length REGISTER_DISC = 8" by (simp add: REGISTER_DISC_def)
  have "buildRegisterInstruction K owner encryptionPubkey registryPda programId'
        = make_instruction K (case programId' of None \<Rightarrow> DEFAULT_PROGRAM_ID | Some p \<Rightarrow> p)
            [(registryPda, WRITABLE), (owner, WRITABLE_SIGNER), (SYSTEM_PROGRAM, READONLY)]
            (REGISTER_DISC @ encryptionPubkey)"
    using h by (simp add: buildRegisterInstruction_def Let_def disc_into_40[OF d] key_after_disc[OF d])
  thus "\<exists>ix. buildRegisterInstruction K owner encryptionPubkey registryPda programId' = Inr ix \<and>
          data ix = [0xD3, 0x7C, 0x43, 0x0F, 0xD3, 0xC2, 0xB2, 0xF0] @ encryptionPubkey"
    using h by (simp add: make_instruction_ok REGISTER_DISC_def)
next
  assume h: "length encryptionPubkey = 32 \<and>
    is_address K (case programId' of None \<Rightarrow> DEFAULT_PROGRAM_ID | Some p \<Rightarrow> p) \<and>
    list_all (is_address K) [registryPda, owner]"
  have d: "length UPDATE_ENCRYPTION_KEY_DISC = 8" by (simp add: UPDATE_ENCRYPTION_KEY_DISC_def)
  have "buildUpdateEncryptionKeyInstruction K owner encryptionPubkey registryPda programId'
        = make_instruction K (case programId' of None \<Rightarrow> DEFAULT_PROGRAM_ID | Some p \<Rightarrow> p)
            [(registryPda, WRITABLE), (owner, READONLY_SIGNER)]
            (UPDATE_ENCRYPTION_KEY_DISC @ encryptionPubkey)"
    using h by (simp add: buildUpdateEncryptionKeyInstruction_def Let_def disc_into_40[OF d] key_after_disc[OF d])
  thus "\<exists>ix. buildUpdateEncryptionKeyInstruction K owner encryptionPubkey registryPda programId' = Inr ix \<and>
          data ix = [0x5C, 0xE9, 0x1D, 0x65, 0x98, 0x61, 0x6E, 0xEB] @ encryptionPubkey"
    using h by (simp add: make_instruction_ok UPDATE_ENCRYPTION_KEY_DISC_def)
next
  assume h: "is_address K (case programId' of None \<Rightarrow> DEFAULT_PROGRAM_ID | Some p \<Rightarrow> p) \<and>
    list_all (is_address K) [registryPda, owner]"
  have "set_bytes (new_Uint8Array 8) DEREGISTER_DISC 0 = Inr DEREGISTER_DISC"
    by (simp add: set_bytes_def new_Uint8Array_def DEREGISTER_DISC_def)
  hence "buildDeregisterInstruction K owner registryPda programId'
        = make_instruction K (case programId' of None \<Rightarrow> DEFAULT_PROGRAM_ID | Some p \<Rightarrow> p)
            [(registryPda, WRITABLE), (owner, WRITABLE_SIGNER)] DEREGISTER_DISC"
    by (simp add: buildDeregisterInstruction_def Let_def)
  thus "\<exists>ix. buildDeregisterInstruction K owner registryPda programId' = Inr ix \<and>
          data ix = [0xA1, 0xB2, 0x27, 0xBD, 0xE7, 0xE0, 0x0D, 0xBB]"
    using h by (simp add: make_instruction_ok DEREGISTER_DISC_def)
qed


theorem instruction_wire_layout_witness:
  "addressToBytes bytewise_kit bob = Inr (replicate 32 66) \<and>
   length (replicate 32 (66 :: u8)) = 32 \<and> length sample_nonce = 24 \<and>
   length sample_key = 32 \<and>
   is_address bytewise_kit sample_pda \<and>
   list_all (is_address bytewise_kit) [alice, sample_pda, sample_pda, sample_pda, bob, SYSTEM_PROGRAM] \<and>
   list_all (is_address bytewise_kit) [sample_pda, alice, SYSTEM_PROGRAM] \<and>
   (\<exists>ix. buildSendMessageInstruction bytewise_kit alice bob sample_ciphertext sample_nonce
            sample_pda sample_pda sample_pda (Some sample_pda) = Inr ix \<and>
         data ix = [0x39, 0x28, 0x22, 0xB2, 0xBD, 0x0A, 0x41, 0x1A] @ replicate 32 66 @
                   [3, 0, 0, 0] @ sample_ciphertext @ sample_nonce) \<and>
   (\<exists>ix. buildRegisterInstruction bytewise_kit alice sample_key sample_pda (Some sample_pda) = Inr ix \<and>
         data ix = [0xD3, 0x7C, 0x43, 0x0F, 0xD3, 0xC2, 0xB2, 0xF0] @ sample_key) \<and>
   (\<exists>ix. buildUpdateEncryptionKeyInstruction bytewise_kit alice sample_key sample_pda (Some sample_pda) = Inr ix \<and>
         data ix = [0x5C, 0xE9, 0x1D, 0x65, 0x98, 0x61, 0x6E, 0xEB] @ sample_key) \<and>
   (\<exists>ix. buildDeregisterInstruction bytewise_kit alice sample_pda (Some sample_pda) = Inr ix \<and>
         data ix = [0xA1, 0xB2, 0x27, 0xBD, 0xE7, 0xE0, 0x0D, 0xBB])"
proof -
  have a: "addressToBytes bytewise_kit bob = Inr (replicate 32 66)"
    by (simp add: addressToBytes_def bytewise_kit_def bob_def)
  have l: "length (replicate 32 (66 :: u8)) = 32" "length sample_nonce = 24" "length sample_key = 32"
    by (simp_all add: sample_nonce_def sample_key_def)
  have p: "is_address bytewise_kit (case Some sample_pda of None \<Rightarrow> DEFAULT_PROGRAM_ID | Some p \<Rightarrow> p)"
    by (simp add: bytewise_kit_def sample_pda_def)
  have p': "is_address bytewise_kit sample_pda" using p by simp
  have s: "list_all (is_address bytewise_kit) [alice, sample_pda, sample_pda, sample_pda, bob, SYSTEM_PROGRAM]"
    by (simp add: bytewise_kit_def sample_pda_def alice_def bob_def SYSTEM_PROGRAM_def)
  have r: "list_all (is_address bytewise_kit) [sample_pda, alice, SYSTEM_PROGRAM]"
    by (simp add: bytewise_kit_def sample_pda_def alice_def SYSTEM_PROGRAM_def)
  have u: "list_all (is_address bytewise_kit) [sample_pda, alice]" using r by simp
  have len3: "u32le (length sample_ciphertext) = [3, 0, 0, 0]"
    by (simp add: u32le_def sample_ciphertext_def Let_def drop_bit_eq_div)
  note T = instruction_wire_layout[where K = bytewise_kit and recipient' = bob and rb = "replicate 32 66"
       and nc = sample_nonce and programId' = "Some sample_pda" and sender' = alice
       and configPda = sample_pda and feeVault = sample_pda and recipientRegistryPda = sample_pda
       and ct = sample_ciphertext and encryptionPubkey = sample_key and registryPda = sample_pda
       and owner = alice]
  from T a l p s have 1: "\<exists>ix. buildSendMessageInstruction bytewise_kit alice bob sample_ciphertext sample_nonce
            sample_pda sample_pda sample_pda (Some sample_pda) = Inr ix \<and>
         data ix = [0x39, 0x28, 0x22, 0xB2, 0xBD, 0x0A, 0x41, 0x1A] @ replicate 32 66 @
                   [3, 0, 0, 0] @ sample_ciphertext @ sample_nonce"
    unfolding len3 by blast
  from T l p r have 2: "\<exists>ix. buildRegisterInstruction bytewise_kit alice sample_key sample_pda (Some sample_pda) = Inr ix \<and>
         data ix = [0xD3, 0x7C, 0x43, 0x0F, 0xD3, 0xC2, 0xB2, 0xF0] @ sample_key"
    by blast
  from T l p u have 3: "\<exists>ix. buildUpdateEncryptionKeyInstruction bytewise_kit alice sample_key sample_pda (Some sample_pda) = Inr ix \<and>
         data ix = [0x5C, 0xE9, 0x1D, 0x65, 0x98, 0x61, 0x6E, 0xEB] @ sample_key"
    by blast
  from T p u have 4: "\<exists>ix. buildDeregisterInstruction bytewise_kit alice sample_pda (Some sample_pda) = Inr ix \<and>
         data ix = [0xA1, 0xB2, 0x27, 0xBD, 0xE7, 0xE0, 0x0D, 0xBB]"
    by blast
  show ?thesis using a l p' s r 1 2 3 4 by blast
qed

section \<open>Encryption: properties\<close>

text \<open>
  Claim C7 (decrypt totality), as the code has it. For every ciphertext, nonce, sender
  public key and recipient secret key there are four cases. When the sender key does not
  convert, \<open>decryptRaw\<close> returns \<open>None\<close> and \<open>decrypt\<close> throws. When \<open>nacl.box.open\<close>
  returns \<open>null\<close> (the authentication fails), \<open>decryptRaw\<close> returns \<open>None\<close> and
  \<open>decrypt\<close> throws. When \<open>nacl.box.open\<close> returns a plaintext, \<open>decryptRaw\<close> returns
  it and \<open>decrypt\<close> returns its text. When \<open>nacl.box.open\<close> itself throws, both throw the
  same: neither function throws anything else.
\<close>

theorem decrypt_totality:
  "(convertPublicKey C pk = None \<longrightarrow>
      decryptRaw C ct nc pk sk = Inr None \<and>
      decrypt C td ct nc pk sk = Inl SenderKeyConversionFailed) \<and>
   (convertPublicKey C pk = Some sx \<and> box_open C ct nc sx (convertSecretKey C sk) = Inr None \<longrightarrow>
      decryptRaw C ct nc pk sk = Inr None \<and>
      decrypt C td ct nc pk sk = Inl DecryptionFailed) \<and>
   (convertPublicKey C pk = Some sx \<and> box_open C ct nc sx (convertSecretKey C sk) = Inr (Some p) \<longrightarrow>
      decryptRaw C ct nc pk sk = Inr (Some p) \<and>
      decrypt C td ct nc pk sk = Inr (td p)) \<and>
   (convertPublicKey C pk = Some sx \<and> box_open C ct nc sx (convertSecretKey C sk) = Inl e \<longrightarrow>
      decryptRaw C ct nc pk sk = Inl e \<and>
      decrypt C td ct nc pk sk = Inl e)"
  by (simp add: decryptRaw_def decrypt_def)

lemma toy_open_alice_bob:
  "box_open toy_crypto ct sample_nonce (address_bytes alice) (convertSecretKey toy_crypto (keypair_of bob))
   = (if 32 \<le> length ct \<and> take 32 ct = replicate 32 3 then Inr (Some (drop 32 ct)) else Inr None)"
proof -
  have "toy_tag (address_bytes alice) (address_bytes bob) = replicate 32 3"
    by (simp add: toy_tag_def address_bytes_def alice_def bob_def zip_replicate map_replicate_const)
  thus ?thesis
    by (simp add: toy_crypto_def keypair_of_def sample_nonce_def address_bytes_def bob_def)
qed

theorem decrypt_totality_witness:
  "convertPublicKey toy_crypto [] = None \<and>
   decryptRaw toy_crypto sample_ciphertext sample_nonce [] (keypair_of bob) = Inr None \<and>
   decrypt toy_crypto ascii_decode sample_ciphertext sample_nonce [] (keypair_of bob)
     = Inl SenderKeyConversionFailed \<and>
   convertPublicKey toy_crypto (address_bytes alice) = Some (address_bytes alice) \<and>
   box_open toy_crypto sample_ciphertext sample_nonce (address_bytes alice)
     (convertSecretKey toy_crypto (keypair_of bob)) = Inr None \<and>
   decryptRaw toy_crypto sample_ciphertext sample_nonce (address_bytes alice) (keypair_of bob) = Inr None \<and>
   decrypt toy_crypto ascii_decode sample_ciphertext sample_nonce (address_bytes alice) (keypair_of bob)
     = Inl DecryptionFailed \<and>
   box_open toy_crypto (replicate 32 3 @ [103, 109]) sample_nonce (address_bytes alice)
     (convertSecretKey toy_crypto (keypair_of bob)) = Inr (Some [103, 109]) \<and>
   decryptRaw toy_crypto (replicate 32 3 @ [103, 109]) sample_nonce (address_bytes alice) (keypair_of bob)
     = Inr (Some [103, 109]) \<and>
   decrypt toy_crypto ascii_decode (replicate 32 3 @ [103, 109]) sample_nonce (address_bytes alice)
     (keypair_of bob) = Inr (ascii_decode [103, 109]) \<and>
   box_open toy_crypto sample_ciphertext [] (address_bytes alice)
     (convertSecretKey toy_crypto (keypair_of bob)) = Inl (Thrown ''bad nonce size'') \<and>
   decryptRaw toy_crypto sample_ciphertext [] (address_bytes alice) (keypair_of bob)
     = Inl (Thrown ''bad nonce size'') \<and>
   decrypt toy_crypto ascii_decode sample_ciphertext [] (address_bytes alice) (keypair_of bob)
     = Inl (Thrown ''bad nonce size'')"
proof -
  have c0: "convertPublicKey toy_crypto [] = None" by (simp add: toy_crypto_def)
  have c1: "convertPublicKey toy_crypto (address_bytes alice) = Some (address_bytes alice)"
    by (simp add: toy_crypto_def address_bytes_def alice_def)
  have o1: "box_open toy_crypto sample_ciphertext sample_nonce (address_bytes alice)
     (convertSecretKey toy_crypto (keypair_of bob)) = Inr None"
    by (simp add: toy_open_alice_bob sample_ciphertext_def)
  have o2: "box_open toy_crypto (replicate 32 3 @ [103, 109]) sample_nonce (address_bytes alice)
     (convertSecretKey toy_crypto (keypair_of bob)) = Inr (Some [103, 109])"
    by (simp add: toy_open_alice_bob)
  have o3: "box_open toy_crypto sample_ciphertext [] (address_bytes alice)
     (convertSecretKey toy_crypto (keypair_of bob)) = Inl (Thrown ''bad nonce size'')"
    by (simp add: toy_crypto_def)
  note T = decrypt_totality[where C = toy_crypto and td = ascii_decode and sk = "keypair_of bob"]
  from T[where pk = "[]" and ct = sample_ciphertext and nc = sample_nonce] c0
  have 1: "decryptRaw toy_crypto sample_ciphertext sample_nonce [] (keypair_of bob) = Inr None"
          "decrypt toy_crypto ascii_decode sample_ciphertext sample_nonce [] (keypair_of bob)
             = Inl SenderKeyConversionFailed"
    by blast+
  from T[where pk = "address_bytes alice" and sx = "address_bytes alice" and ct = sample_ciphertext
         and nc = sample_nonce] c1 o1
  have 2: "decryptRaw toy_crypto sample_ciphertext sample_nonce (address_bytes alice) (keypair_of bob) = Inr None"
          "decrypt toy_crypto ascii_decode sample_ciphertext sample_nonce (address_bytes alice) (keypair_of bob)
             = Inl DecryptionFailed"
    by blast+
  from T[where pk = "address_bytes alice" and sx = "address_bytes alice"
         and ct = "replicate 32 3 @ [103, 109]" and nc = sample_nonce and p = "[103, 109]"] c1 o2
  have 3: "decryptRaw toy_crypto (replicate 32 3 @ [103, 109]) sample_nonce (address_bytes alice) (keypair_of bob)
             = Inr (Some [103, 109])"
          "decrypt toy_crypto ascii_decode (replicate 32 3 @ [103, 109]) sample_nonce (address_bytes alice)
             (keypair_of bob) = Inr (ascii_decode [103, 109])"
    by blast+
  from T[where pk = "address_bytes alice" and sx = "address_bytes alice" and ct = sample_ciphertext
         and nc = "[]" and e = "Thrown ''bad nonce size''"] c1 o3
  have 4: "decryptRaw toy_crypto sample_ciphertext [] (address_bytes alice) (keypair_of bob)
             = Inl (Thrown ''bad nonce size'')"
          "decrypt toy_crypto ascii_decode sample_ciphertext [] (address_bytes alice) (keypair_of bob)
             = Inl (Thrown ''bad nonce size'')"
    by blast+
  show ?thesis using c0 c1 o1 o2 o3 1 2 3 4 by blast
qed

text \<open>
  The claim as stated fails for \<open>decrypt\<close>: a ciphertext that does not authenticate makes
  it throw.
\<close>

theorem decrypt_throws_counterexample:
  "decrypt toy_crypto ascii_decode sample_ciphertext sample_nonce (address_bytes alice) (keypair_of bob)
     = Inl DecryptionFailed"
proof -
  have c1: "convertPublicKey toy_crypto (address_bytes alice) = Some (address_bytes alice)"
    by (simp add: toy_crypto_def address_bytes_def alice_def)
  have o1: "box_open toy_crypto sample_ciphertext sample_nonce (address_bytes alice)
     (convertSecretKey toy_crypto (keypair_of bob)) = Inr None"
    by (simp add: toy_open_alice_bob sample_ciphertext_def)
  show ?thesis by (simp add: decrypt_def c1 o1)
qed

section \<open>Registry lookup: properties\<close>

lemma subarray_40_72: "subarray raw 40 72 = take 32 (drop 40 raw)"
proof -
  have "take (nat (min 72 (int (length raw)) - min 40 (int (length raw)))) (drop (nat (min 40 (int (length raw)))) raw)
        = take 32 (drop 40 raw)"
  proof (cases "length raw < 40")
    case True
    then show ?thesis by (simp add: min_def)
  next
    case False
    hence m: "min 40 (int (length raw)) = 40" by simp
    show ?thesis
    proof (cases "length raw < 72")
      case True
      with False have "nat (min 72 (int (length raw)) - 40) = length raw - 40" by (simp add: min_def)
      thus ?thesis unfolding m by simp
    next
      case False
      hence "nat (min 72 (int (length raw)) - 40) = 32" by (simp add: min_def)
      thus ?thesis unfolding m by simp
    qed
  qed
  thus ?thesis by (simp add: subarray_def Let_def)
qed

lemma lookup_absent:
  assumes "deriveRegistryPda K w p = Inr pda"
    and "getAccountInfo rpc pda = Inr None \<or> (\<exists>e. getAccountInfo rpc pda = Inl e)"
  shows "lookupEncryptionKey K fb rpc w p = Inr None"
  using assms by (auto simp: lookupEncryptionKey_def address_def)

lemma lookup_present:
  assumes "deriveRegistryPda K w p = Inr pda" and "is_address K pda"
    and "getAccountInfo rpc pda = Inr (Some d)"
    and "d = DataPair s \<or> (d = DataString s \<and> s \<noteq> [])"
  shows "lookupEncryptionKey K fb rpc w p = Inr (Some (bytes_to_base58 K (take 32 (drop 40 (fb s)))))"
  using assms by (auto simp: lookupEncryptionKey_def address_def subarray_40_72)

text \<open>
  Claim C8 (lookup absence semantics). Where the registry address of the wallet derives:
  \<open>lookupEncryptionKey\<close> returns \<open>None\<close> when the account does not exist, returns
  \<open>None\<close> when the RPC call throws, whatever it throws, and, for account data of at least
  72 bytes, returns the base58 text of the 32 bytes at offsets 40 to 72.
\<close>

theorem lookup_absence_semantics:
  "(deriveRegistryPda K w p = Inr pda \<and> getAccountInfo rpc pda = Inr None \<longrightarrow>
      lookupEncryptionKey K fb rpc w p = Inr None) \<and>
   (deriveRegistryPda K w p = Inr pda \<and> getAccountInfo rpc pda = Inl e \<longrightarrow>
      lookupEncryptionKey K fb rpc w p = Inr None) \<and>
   (deriveRegistryPda K w p = Inr pda \<and> is_address K pda \<and>
    getAccountInfo rpc pda = Inr (Some d) \<and> (d = DataPair s \<or> (d = DataString s \<and> s \<noteq> [])) \<and>
    72 \<le> length (fb s) \<longrightarrow>
      lookupEncryptionKey K fb rpc w p
        = Inr (Some (bytes_to_base58 K (slice_bytes (fb s) 40 72))) \<and>
      length (slice_bytes (fb s) 40 72) = 32)"
proof (intro conjI impI)
  assume "deriveRegistryPda K w p = Inr pda \<and> getAccountInfo rpc pda = Inr None"
  thus "lookupEncryptionKey K fb rpc w p = Inr None" by (simp add: lookup_absent)
next
  assume "deriveRegistryPda K w p = Inr pda \<and> getAccountInfo rpc pda = Inl e"
  thus "lookupEncryptionKey K fb rpc w p = Inr None" by (simp add: lookup_absent)
next
  assume h: "deriveRegistryPda K w p = Inr pda \<and> is_address K pda \<and>
    getAccountInfo rpc pda = Inr (Some d) \<and> (d = DataPair s \<or> (d = DataString s \<and> s \<noteq> [])) \<and>
    72 \<le> length (fb s)"
  have e: "slice_bytes (fb s) 40 72 = take 32 (drop 40 (fb s))"
    by (simp add: slice_bytes_def drop_take)
  from h have "lookupEncryptionKey K fb rpc w p = Inr (Some (bytes_to_base58 K (take 32 (drop 40 (fb s)))))"
    by (intro lookup_present[where d = d and pda = pda]) simp_all
  thus "lookupEncryptionKey K fb rpc w p = Inr (Some (bytes_to_base58 K (slice_bytes (fb s) 40 72)))"
    by (simp add: e)
next
  assume h: "deriveRegistryPda K w p = Inr pda \<and> is_address K pda \<and>
    getAccountInfo rpc pda = Inr (Some d) \<and> (d = DataPair s \<or> (d = DataString s \<and> s \<noteq> [])) \<and>
    72 \<le> length (fb s)"
  thus "length (slice_bytes (fb s) 40 72) = 32" by (simp add: slice_bytes_def)
qed

text \<open>
  Claim C10 (no length validation). For an existing account whose data are present but
  shorter than 72 bytes, \<open>lookupEncryptionKey\<close> returns the base58 text of the bytes from
  offset 40 to the end of the data: fewer than 32 bytes, and no bytes at all when the data
  have at most 40 bytes. It neither returns \<open>None\<close> nor throws.
\<close>

theorem lookup_short_account_data:
  "deriveRegistryPda K w p = Inr pda \<and> is_address K pda \<and>
   getAccountInfo rpc pda = Inr (Some d) \<and> (d = DataPair s \<or> (d = DataString s \<and> s \<noteq> [])) \<and>
   length (fb s) < 72 \<longrightarrow>
     lookupEncryptionKey K fb rpc w p = Inr (Some (bytes_to_base58 K (drop 40 (fb s)))) \<and>
     length (drop 40 (fb s)) < 32 \<and>
     (length (fb s) \<le> 40 \<longrightarrow> drop 40 (fb s) = [])"
proof (intro impI)
  assume h: "deriveRegistryPda K w p = Inr pda \<and> is_address K pda \<and>
   getAccountInfo rpc pda = Inr (Some d) \<and> (d = DataPair s \<or> (d = DataString s \<and> s \<noteq> [])) \<and>
   length (fb s) < 72"
  hence "lookupEncryptionKey K fb rpc w p = Inr (Some (bytes_to_base58 K (take 32 (drop 40 (fb s)))))"
    by (intro lookup_present[where d = d and pda = pda]) simp_all
  moreover have lt: "length (fb s) < 72" using h by simp
  hence "take 32 (drop 40 (fb s)) = drop 40 (fb s)" by simp
  ultimately show "lookupEncryptionKey K fb rpc w p = Inr (Some (bytes_to_base58 K (drop 40 (fb s)))) \<and>
     length (drop 40 (fb s)) < 32 \<and>
     (length (fb s) \<le> 40 \<longrightarrow> drop 40 (fb s) = [])"
    using lt by auto
qed


lemma derive_alice: "deriveRegistryPda bytewise_kit alice None = Inr (replicate 32 CHR ''a'')"
  by code_simp

lemma derive_bob: "deriveRegistryPda bytewise_kit bob None = Inr (replicate 32 CHR ''b'')"
  by code_simp

lemma derive_carol: "deriveRegistryPda bytewise_kit carol None = Inr (replicate 32 CHR ''c'')"
  by code_simp

lemma derive_dave: "deriveRegistryPda bytewise_kit dave None = Inr (replicate 32 CHR ''d'')"
  by code_simp

lemma registry_data_long:
  "buffer_from_base64 ''AAAAAAAAAABBQUFBQUFBQUFBQUFBQUFBQUFBQUFBQUFBQUFBQUFBQQkJCQkJCQkJCQkJCQkJCQkJCQkJCQkJCQkJCQkJCQkJAAAAAAAAAAAAAAAAAAAAAA==''
   = replicate 8 0 @ replicate 32 65 @ replicate 32 9 @ replicate 16 0"
  by code_simp

lemma registry_data_short:
  "buffer_from_base64 ''AAAAAAAAAABBQUFBQUFBQUFBQUFBQUFBQUFBQUFBQUFBQUFBQUFBQQkJCQkJCQkJCQk=''
   = replicate 8 0 @ replicate 32 65 @ replicate 10 9"
  by code_simp

theorem lookup_absence_semantics_witness:
  "deriveRegistryPda bytewise_kit dave None = Inr (replicate 32 CHR ''d'') \<and>
   getAccountInfo registry_node (replicate 32 CHR ''d'') = Inr None \<and>
   lookupEncryptionKey bytewise_kit buffer_from_base64 registry_node dave None = Inr None \<and>
   deriveRegistryPda bytewise_kit carol None = Inr (replicate 32 CHR ''c'') \<and>
   getAccountInfo registry_node (replicate 32 CHR ''c'') = Inl (Thrown ''429 Too Many Requests'') \<and>
   lookupEncryptionKey bytewise_kit buffer_from_base64 registry_node carol None = Inr None \<and>
   deriveRegistryPda bytewise_kit alice None = Inr (replicate 32 CHR ''a'') \<and>
   is_address bytewise_kit (replicate 32 CHR ''a'') \<and>
   getAccountInfo registry_node (replicate 32 CHR ''a'') = Inr (Some (DataPair
     ''AAAAAAAAAABBQUFBQUFBQUFBQUFBQUFBQUFBQUFBQUFBQUFBQUFBQQkJCQkJCQkJCQkJCQkJCQkJCQkJCQkJCQkJCQkJCQkJAAAAAAAAAAAAAAAAAAAAAA=='')) \<and>
   lookupEncryptionKey bytewise_kit buffer_from_base64 registry_node alice None
     = Inr (Some (bytes_to_base58 bytewise_kit (replicate 32 9)))"
proof -
  let ?s = "''AAAAAAAAAABBQUFBQUFBQUFBQUFBQUFBQUFBQUFBQUFBQUFBQUFBQQkJCQkJCQkJCQkJCQkJCQkJCQkJCQkJCQkJCQkJCQkJAAAAAAAAAAAAAAAAAAAAAA==''"
  have g1: "getAccountInfo registry_node (replicate 32 CHR ''d'') = Inr None"
    by (simp add: registry_node_def)
  have g2: "getAccountInfo registry_node (replicate 32 CHR ''c'') = Inl (Thrown ''429 Too Many Requests'')"
    by (simp add: registry_node_def)
  have g3: "getAccountInfo registry_node (replicate 32 CHR ''a'') = Inr (Some (DataPair ?s))"
    by (simp add: registry_node_def)
  have a: "is_address bytewise_kit (replicate 32 CHR ''a'')" by (simp add: bytewise_kit_def)
  have l: "72 \<le> length (buffer_from_base64 ?s)" unfolding registry_data_long by simp
  have k: "slice_bytes (buffer_from_base64 ?s) 40 72 = replicate 32 9"
    unfolding registry_data_long by (simp add: slice_bytes_def)
  note T = lookup_absence_semantics[where K = bytewise_kit and fb = buffer_from_base64
      and rpc = registry_node and p = None]
  from T[where w = dave and pda = "replicate 32 CHR ''d''"] derive_dave g1
  have 1: "lookupEncryptionKey bytewise_kit buffer_from_base64 registry_node dave None = Inr None"
    by blast
  from T[where w = carol and pda = "replicate 32 CHR ''c''" and e = "Thrown ''429 Too Many Requests''"]
    derive_carol g2
  have 2: "lookupEncryptionKey bytewise_kit buffer_from_base64 registry_node carol None = Inr None"
    by blast
  from T[where w = alice and pda = "replicate 32 CHR ''a''" and d = "DataPair ?s" and s = ?s]
    derive_alice a g3 l
  have 3: "lookupEncryptionKey bytewise_kit buffer_from_base64 registry_node alice None
     = Inr (Some (bytes_to_base58 bytewise_kit (replicate 32 9)))"
    unfolding k by blast
  show ?thesis using derive_dave g1 1 derive_carol g2 2 derive_alice a g3 3 by blast
qed

theorem lookup_short_account_data_witness:
  "deriveRegistryPda bytewise_kit bob None = Inr (replicate 32 CHR ''b'') \<and>
   is_address bytewise_kit (replicate 32 CHR ''b'') \<and>
   getAccountInfo registry_node (replicate 32 CHR ''b'') = Inr (Some (DataPair
     ''AAAAAAAAAABBQUFBQUFBQUFBQUFBQUFBQUFBQUFBQUFBQUFBQUFBQQkJCQkJCQkJCQk='')) \<and>
   length (buffer_from_base64
     ''AAAAAAAAAABBQUFBQUFBQUFBQUFBQUFBQUFBQUFBQUFBQUFBQUFBQQkJCQkJCQkJCQk='') = 50 \<and>
   lookupEncryptionKey bytewise_kit buffer_from_base64 registry_node bob None
     = Inr (Some (bytes_to_base58 bytewise_kit (replicate 10 9)))"
proof -
  let ?s = "''AAAAAAAAAABBQUFBQUFBQUFBQUFBQUFBQUFBQUFBQUFBQUFBQUFBQQkJCQkJCQkJCQk=''"
  have g: "getAccountInfo registry_node (replicate 32 CHR ''b'') = Inr (Some (DataPair ?s))"
    by (simp add: registry_node_def)
  have a: "is_address bytewise_kit (replicate 32 CHR ''b'')" by (simp add: bytewise_kit_def)
  have l: "length (buffer_from_base64 ?s) = 50" unfolding registry_data_short by simp
  have k: "drop 40 (buffer_from_base64 ?s) = replicate 10 9"
    unfolding registry_data_short by simp
  from lookup_short_account_data[where K = bytewise_kit and fb = buffer_from_base64
      and rpc = registry_node and p = None and w = bob and pda = "replicate 32 CHR ''b''"
      and d = "DataPair ?s" and s = ?s] derive_bob a g l
  have "lookupEncryptionKey bytewise_kit buffer_from_base64 registry_node bob None
     = Inr (Some (bytes_to_base58 bytewise_kit (replicate 10 9)))"
    unfolding k by simp
  thus ?thesis using derive_bob a g l by blast
qed

section \<open>read: properties\<close>

lemma since_filter_positive:
  "0 < since \<Longrightarrow> since_filter since s = (\<exists>t. blockTime s = Some t \<and> since \<le> t)"
  by (auto simp: since_filter_def split: option.splits)

lemma read_batch_cong:
  "(\<And>s. s \<in> set batch \<Longrightarrow> getTransaction rpc' (signature s) = getTransaction rpc (signature s)) \<Longrightarrow>
   read_batch K atob rpc' m limit batch messages = read_batch K atob rpc m limit batch messages"
proof (induction batch arbitrary: messages)
  case Nil
  show ?case by simp
next
  case (Cons s batch)
  have g: "getTransaction rpc' (signature s) = getTransaction rpc (signature s)"
    using Cons.prems by simp
  have IH: "read_batch K atob rpc' m limit batch ms = read_batch K atob rpc m limit batch ms" for ms
    using Cons.IH Cons.prems by simp
  show ?case by (simp add: g IH Let_def split: sum.splits option.splits)
qed

lemma read_batches_cong:
  "(\<And>s. s \<in> set sigs \<Longrightarrow> getTransaction rpc' (signature s) = getTransaction rpc (signature s)) \<Longrightarrow>
   read_batches K atob rpc' m limit sigs messages = read_batches K atob rpc m limit sigs messages"
proof (induction "length sigs" arbitrary: sigs messages rule: less_induct)
  case less
  show ?case
  proof (cases "sigs = []")
    case True
    have "read_batches K atob rpc' m limit [] messages = Inr messages"
      by (subst read_batches.simps) simp
    moreover have "read_batches K atob rpc m limit [] messages = Inr messages"
      by (subst read_batches.simps) simp
    ultimately show ?thesis using True by simp
  next
    case False
    have b: "read_batch K atob rpc' m limit (take 20 sigs) messages
             = read_batch K atob rpc m limit (take 20 sigs) messages"
    proof (rule read_batch_cong)
      fix s assume "s \<in> set (take 20 sigs)"
      hence "s \<in> set sigs" by (rule in_set_takeD)
      thus "getTransaction rpc' (signature s) = getTransaction rpc (signature s)" by (rule less.prems)
    qed
    have r: "read_batches K atob rpc' m limit (drop 20 sigs) ms
             = read_batches K atob rpc m limit (drop 20 sigs) ms" for ms
    proof (rule less.hyps)
      show "length (drop 20 sigs) < length sigs" using False by simp
    next
      fix s assume "s \<in> set (drop 20 sigs)"
      hence "s \<in> set sigs" by (rule in_set_dropD)
      thus "getTransaction rpc' (signature s) = getTransaction rpc (signature s)" by (rule less.prems)
    qed
    have u: "read_batches K atob R m limit sigs messages =
        (case read_batch K atob R m limit (take 20 sigs) messages of
           Inl e \<Rightarrow> Inl e
         | Inr messages' \<Rightarrow>
             if limit \<le> int (length messages') then Inr messages'
             else read_batches K atob R m limit (drop 20 sigs) messages')" for R
      by (subst read_batches.simps) (simp only: False if_False)
    show ?thesis unfolding u[of rpc'] u[of rpc] b
      by (simp add: r split: sum.splits)
  qed
qed

lemma read_retained_cong:
  "(\<And>s. s \<in> set sigs \<Longrightarrow> getTransaction rpc' (signature s) = getTransaction rpc (signature s)) \<Longrightarrow>
   read_retained K C atob td rpc' m limit sigs = read_retained K C atob td rpc m limit sigs"
proof -
  assume a: "\<And>s. s \<in> set sigs \<Longrightarrow> getTransaction rpc' (signature s) = getTransaction rpc (signature s)"
  have "read_batches K atob rpc' m limit sigs [] = read_batches K atob rpc m limit sigs []"
    by (rule read_batches_cong) (rule a)
  thus ?thesis by (simp only: read_retained_def)
qed

lemma read_since:
  assumes "0 < since" "address K (programId m) = Inr pa"
    "fetch_signatures (getSignaturesForAddress rpc pa) (case limit' of None \<Rightarrow> 100 | Some l \<Rightarrow> l) None [] = Inr fetched"
  shows "read K C atob td rpc m (Some since) limit'
     = read_retained K C atob td rpc m (case limit' of None \<Rightarrow> 100 | Some l \<Rightarrow> l)
         (filter (\<lambda>s. \<exists>t. blockTime s = Some t \<and> since \<le> t) fetched)"
proof -
  have "since_filter since = (\<lambda>s. \<exists>t. blockTime s = Some t \<and> since \<le> t)"
    using assms(1) by (intro ext) (simp add: since_filter_positive)
  thus ?thesis using assms by (simp add: read_def Let_def)
qed

text \<open>
  Claim C9 (signatures without a block time in a read with \<open>since\<close>). When \<open>since\<close> is
  greater than 0, \<open>read\<close> goes on with exactly the fetched signatures that have a block
  time, and one that is at least \<open>since\<close>: those whose block time is missing are
  discarded along with those whose block time is less than \<open>since\<close>. So the result does
  not depend on the transactions of the discarded signatures: a node that answers the
  same signatures and the same transactions for the retained ones gives the same result.
\<close>

theorem read_since_discards_missing_block_time:
  "0 < since \<and> address K (programId m) = Inr pa \<and>
   fetch_signatures (getSignaturesForAddress rpc pa) (case limit' of None \<Rightarrow> 100 | Some l \<Rightarrow> l) None []
     = Inr fetched \<longrightarrow>
     read K C atob td rpc m (Some since) limit'
       = read_retained K C atob td rpc m (case limit' of None \<Rightarrow> 100 | Some l \<Rightarrow> l)
           (filter (\<lambda>s. \<exists>t. blockTime s = Some t \<and> since \<le> t) fetched) \<and>
     (getSignaturesForAddress rpc' = getSignaturesForAddress rpc \<and>
      (\<forall>s \<in> set fetched. (\<exists>t. blockTime s = Some t \<and> since \<le> t) \<longrightarrow>
           getTransaction rpc' (signature s) = getTransaction rpc (signature s)) \<longrightarrow>
        read K C atob td rpc' m (Some since) limit' = read K C atob td rpc m (Some since) limit')"
proof (intro impI conjI)
  assume h: "0 < since \<and> address K (programId m) = Inr pa \<and>
   fetch_signatures (getSignaturesForAddress rpc pa) (case limit' of None \<Rightarrow> 100 | Some l \<Rightarrow> l) None []
     = Inr fetched"
  hence h1: "0 < since" and h2: "address K (programId m) = Inr pa"
    and h3: "fetch_signatures (getSignaturesForAddress rpc pa) (case limit' of None \<Rightarrow> 100 | Some l \<Rightarrow> l) None []
     = Inr fetched" by blast+
  show 1: "read K C atob td rpc m (Some since) limit'
       = read_retained K C atob td rpc m (case limit' of None \<Rightarrow> 100 | Some l \<Rightarrow> l)
           (filter (\<lambda>s. \<exists>t. blockTime s = Some t \<and> since \<le> t) fetched)"
    by (rule read_since[OF h1 h2 h3])
  assume g: "getSignaturesForAddress rpc' = getSignaturesForAddress rpc \<and>
      (\<forall>s \<in> set fetched. (\<exists>t. blockTime s = Some t \<and> since \<le> t) \<longrightarrow>
           getTransaction rpc' (signature s) = getTransaction rpc (signature s))"
  have "read K C atob td rpc' m (Some since) limit'
       = read_retained K C atob td rpc' m (case limit' of None \<Rightarrow> 100 | Some l \<Rightarrow> l)
           (filter (\<lambda>s. \<exists>t. blockTime s = Some t \<and> since \<le> t) fetched)"
  proof (rule read_since[OF h1 h2])
    from g have "getSignaturesForAddress rpc' = getSignaturesForAddress rpc" by blast
    with h3 show "fetch_signatures (getSignaturesForAddress rpc' pa) (case limit' of None \<Rightarrow> 100 | Some l \<Rightarrow> l) None []
     = Inr fetched" by simp
  qed
  also have "\<dots> = read_retained K C atob td rpc m (case limit' of None \<Rightarrow> 100 | Some l \<Rightarrow> l)
           (filter (\<lambda>s. \<exists>t. blockTime s = Some t \<and> since \<le> t) fetched)"
    by (rule read_retained_cong) (use g in auto)
  finally show "read K C atob td rpc' m (Some since) limit' = read K C atob td rpc m (Some since) limit'"
    using 1 by simp
qed


lemma fetch_history:
  "fetch_signatures (getSignaturesForAddress history_node DEFAULT_PROGRAM_ID) 100 None []
   = Inr history_signatures"
  by (subst fetch_signatures.simps) (simp add: history_node_def history_signatures_def)

lemma fetch_failing_history:
  "getSignaturesForAddress failing_history_node = getSignaturesForAddress history_node"
  by (simp add: failing_history_node_def history_node_def)

lemma retained_history:
  "filter (\<lambda>s. \<exists>t. blockTime s = Some t \<and> 1650000000 \<le> t) history_signatures
   = [\<lparr> signature = ''sig1'', blockTime = Some 1700000000 \<rparr>]"
  by (simp add: history_signatures_def)

lemma read_retained_history:
  "read_retained bytewise_kit toy_crypto atob_decode ascii_decode history_node bob_messenger 100
     [\<lparr> signature = ''sig1'', blockTime = Some 1700000000 \<rparr>]
   = Inr [\<lparr> msg_sender = alice, msg_recipient = bob, msg_text = ''gm'',
            msg_timestamp = 1700000000, msg_messageId = [1, 2, 3, 4, 5, 6, 7, 8],
            msg_txSignatures = [''sig1''] \<rparr>]"
  by code_simp

theorem read_since_discards_missing_block_time_witness:
  "(0 :: int) < 1650000000 \<and>
   address bytewise_kit (programId bob_messenger) = Inr DEFAULT_PROGRAM_ID \<and>
   fetch_signatures (getSignaturesForAddress history_node DEFAULT_PROGRAM_ID) 100 None []
     = Inr history_signatures \<and>
   getSignaturesForAddress failing_history_node = getSignaturesForAddress history_node \<and>
   getTransaction failing_history_node ''sig1'' = getTransaction history_node ''sig1'' \<and>
   getTransaction failing_history_node ''sig2'' \<noteq> getTransaction history_node ''sig2'' \<and>
   read bytewise_kit toy_crypto atob_decode ascii_decode history_node bob_messenger (Some 1650000000) None
     = Inr [\<lparr> msg_sender = alice, msg_recipient = bob, msg_text = ''gm'',
              msg_timestamp = 1700000000, msg_messageId = [1, 2, 3, 4, 5, 6, 7, 8],
              msg_txSignatures = [''sig1''] \<rparr>] \<and>
   read bytewise_kit toy_crypto atob_decode ascii_decode failing_history_node bob_messenger
       (Some 1650000000) None
     = read bytewise_kit toy_crypto atob_decode ascii_decode history_node bob_messenger
         (Some 1650000000) None"
proof -
  have a: "address bytewise_kit (programId bob_messenger) = Inr DEFAULT_PROGRAM_ID"
    by (simp add: address_def bytewise_kit_def bob_messenger_def DEFAULT_PROGRAM_ID_def)
  have f: "fetch_signatures (getSignaturesForAddress history_node DEFAULT_PROGRAM_ID)
             (case None of None \<Rightarrow> 100 | Some l \<Rightarrow> l) None [] = Inr history_signatures"
    using fetch_history by simp
  have g1: "getTransaction failing_history_node ''sig1'' = getTransaction history_node ''sig1''"
    by (simp add: failing_history_node_def history_node_def)
  have g2: "getTransaction failing_history_node ''sig2'' \<noteq> getTransaction history_node ''sig2''"
    by (simp add: failing_history_node_def history_node_def)
  have agree: "\<forall>s \<in> set history_signatures. (\<exists>t. blockTime s = Some t \<and> 1650000000 \<le> t) \<longrightarrow>
      getTransaction failing_history_node (signature s) = getTransaction history_node (signature s)"
    using g1 by (simp add: history_signatures_def)
  note T = read_since_discards_missing_block_time[where since = 1650000000 and K = bytewise_kit
      and m = bob_messenger and pa = DEFAULT_PROGRAM_ID and rpc = history_node and limit' = None
      and fetched = history_signatures and rpc' = failing_history_node and C = toy_crypto
      and atob = atob_decode and td = ascii_decode]
  from T a f have 1: "read bytewise_kit toy_crypto atob_decode ascii_decode history_node bob_messenger (Some 1650000000) None
     = read_retained bytewise_kit toy_crypto atob_decode ascii_decode history_node bob_messenger 100
         (filter (\<lambda>s. \<exists>t. blockTime s = Some t \<and> 1650000000 \<le> t) history_signatures)"
    by simp
  from T a f fetch_failing_history agree
  have 2: "read bytewise_kit toy_crypto atob_decode ascii_decode failing_history_node bob_messenger
       (Some 1650000000) None
     = read bytewise_kit toy_crypto atob_decode ascii_decode history_node bob_messenger
         (Some 1650000000) None"
    by simp
  have 3: "read bytewise_kit toy_crypto atob_decode ascii_decode history_node bob_messenger (Some 1650000000) None
     = Inr [\<lparr> msg_sender = alice, msg_recipient = bob, msg_text = ''gm'',
              msg_timestamp = 1700000000, msg_messageId = [1, 2, 3, 4, 5, 6, 7, 8],
              msg_txSignatures = [''sig1''] \<rparr>]"
    unfolding 1 retained_history by (rule read_retained_history)
  show ?thesis using a fetch_history fetch_failing_history g1 g2 2 3 by simp
qed

section \<open>send: properties\<close>

lemma send_chunks_all_landed:
  assumes "length ixs = length chunks" "length sigs = length chunks"
    and "\<And>j. j < length chunks \<Longrightarrow>
          chunk_instruction K C rb m r sk pk (k + j) (chunks ! j) = Inr (ixs ! j) \<and>
          si (k + j) (ixs ! j) = Inr (sigs ! j)"
  shows "send_chunks K C rb si m r sk pk k chunks submitted signatures
         = (submitted @ ixs, Inr (signatures @ sigs))"
  using assms
proof (induction chunks arbitrary: k ixs sigs submitted signatures)
  case Nil
  then show ?case by simp
next
  case (Cons c chunks)
  obtain ix ixs' where ixs: "ixs = ix # ixs'" using Cons.prems(1) by (cases ixs) auto
  obtain sg sigs' where sigs: "sigs = sg # sigs'" using Cons.prems(2) by (cases sigs) auto
  have h0: "chunk_instruction K C rb m r sk pk k c = Inr ix" "si k ix = Inr sg"
    using Cons.prems(3)[of 0] by (simp_all add: ixs sigs)
  have rest: "send_chunks K C rb si m r sk pk (Suc k) chunks (submitted @ [ix]) (signatures @ [sg])
         = ((submitted @ [ix]) @ ixs', Inr ((signatures @ [sg]) @ sigs'))"
  proof (rule Cons.IH)
    show "length ixs' = length chunks" using Cons.prems(1) ixs by simp
    show "length sigs' = length chunks" using Cons.prems(2) sigs by simp
    fix j assume "j < length chunks"
    thus "chunk_instruction K C rb m r sk pk (Suc k + j) (chunks ! j) = Inr (ixs' ! j) \<and>
          si (Suc k + j) (ixs' ! j) = Inr (sigs' ! j)"
      using Cons.prems(3)[of "Suc j"] by (simp add: ixs sigs)
  qed
  show ?case by (simp add: h0 rest ixs sigs)
qed

lemma send_chunks_failure:
  assumes "length ixs = j" "length sigs = j" "j < length chunks"
    and "\<And>i. i < j \<Longrightarrow>
          chunk_instruction K C rb m r sk pk (k + i) (chunks ! i) = Inr (ixs ! i) \<and>
          si (k + i) (ixs ! i) = Inr (sigs ! i)"
  shows "send_chunks K C rb si m r sk pk k chunks submitted signatures =
     (case chunk_instruction K C rb m r sk pk (k + j) (chunks ! j) of
        Inl e \<Rightarrow> (submitted @ ixs, Inl e)
      | Inr ix \<Rightarrow>
          (case si (k + j) ix of
             Inl e \<Rightarrow> (submitted @ ixs @ [ix], Inl e)
           | Inr sg \<Rightarrow>
               send_chunks K C rb si m r sk pk (Suc (k + j)) (drop (Suc j) chunks)
                 (submitted @ ixs @ [ix]) (signatures @ sigs @ [sg])))"
  using assms
proof (induction j arbitrary: k ixs sigs chunks submitted signatures)
  case 0
  then obtain c cs where c: "chunks = c # cs" by (cases chunks) auto
  from 0 show ?case by (simp add: c split: sum.splits)
next
  case (Suc j)
  then obtain c cs where c: "chunks = c # cs" by (cases chunks) auto
  obtain ix ixs' where ixs: "ixs = ix # ixs'" using Suc.prems(1) by (cases ixs) auto
  obtain sg sigs' where sigs: "sigs = sg # sigs'" using Suc.prems(2) by (cases sigs) auto
  have h0: "chunk_instruction K C rb m r sk pk k c = Inr ix" "si k ix = Inr sg"
    using Suc.prems(4)[of 0] by (simp_all add: ixs sigs c)
  have rest: "send_chunks K C rb si m r sk pk (Suc k) cs (submitted @ [ix]) (signatures @ [sg]) =
     (case chunk_instruction K C rb m r sk pk (Suc k + j) (cs ! j) of
        Inl e \<Rightarrow> ((submitted @ [ix]) @ ixs', Inl e)
      | Inr ix' \<Rightarrow>
          (case si (Suc k + j) ix' of
             Inl e \<Rightarrow> ((submitted @ [ix]) @ ixs' @ [ix'], Inl e)
           | Inr sg' \<Rightarrow>
               send_chunks K C rb si m r sk pk (Suc (Suc k + j)) (drop (Suc j) cs)
                 ((submitted @ [ix]) @ ixs' @ [ix']) ((signatures @ [sg]) @ sigs' @ [sg'])))"
  proof (rule Suc.IH)
    show "length ixs' = j" using Suc.prems(1) ixs by simp
    show "length sigs' = j" using Suc.prems(2) sigs by simp
    show "j < length cs" using Suc.prems(3) c by simp
    fix i assume "i < j"
    thus "chunk_instruction K C rb m r sk pk (Suc k + i) (cs ! i) = Inr (ixs' ! i) \<and>
          si (Suc k + i) (ixs' ! i) = Inr (sigs' ! i)"
      using Suc.prems(4)[of "Suc i"] by (simp add: ixs sigs c)
  qed
  show ?case by (simp add: h0 rest ixs sigs c split: sum.splits)
qed


text \<open>
  Claim C6 (send result and partial failure), as the code has it. Let the message encode
  to \<open>chunks\<close>, the encryption key resolve and the secret key be there. When every chunk
  is encrypted, built and submitted without a throw, \<open>send\<close> has submitted one
  instruction per chunk, in the order of the chunks, and returns their signatures in
  that order. When chunks \<open>0..j-1\<close> land and submitting chunk \<open>j\<close> throws \<open>e\<close>, the
  instructions of chunks \<open>0..j\<close> and no others have been submitted, and what \<open>send\<close>
  throws is \<open>e\<close> itself: the signatures that landed are not in it. When encrypting or
  building chunk \<open>j\<close> throws \<open>e\<close>, only chunks \<open>0..j-1\<close> have been submitted and
  \<open>send\<close> throws \<open>e\<close>.
\<close>

theorem send_result_and_partial_failure:
  "encodeMessage enc mid message = Inr chunks \<and>
   resolve_encryption_key K fb rpc m r epk = Inr pk \<and>
   encryption_secret_key m = Some sk \<longrightarrow>
     (length ixs = length chunks \<and> length sigs = length chunks \<and>
      (\<forall>j < length chunks.
          chunk_instruction K C rb m r sk pk j (chunks ! j) = Inr (ixs ! j) \<and>
          si j (ixs ! j) = Inr (sigs ! j)) \<longrightarrow>
        send K C enc fb rpc mid rb si m r message epk = (ixs, Inr sigs)) \<and>
     (length ixs = j \<and> length sigs = j \<and> j < length chunks \<and>
      (\<forall>i < j.
          chunk_instruction K C rb m r sk pk i (chunks ! i) = Inr (ixs ! i) \<and>
          si i (ixs ! i) = Inr (sigs ! i)) \<and>
      chunk_instruction K C rb m r sk pk j (chunks ! j) = Inr ix \<and>
      si j ix = Inl e \<longrightarrow>
        send K C enc fb rpc mid rb si m r message epk = (ixs @ [ix], Inl e)) \<and>
     (length ixs = j \<and> length sigs = j \<and> j < length chunks \<and>
      (\<forall>i < j.
          chunk_instruction K C rb m r sk pk i (chunks ! i) = Inr (ixs ! i) \<and>
          si i (ixs ! i) = Inr (sigs ! i)) \<and>
      chunk_instruction K C rb m r sk pk j (chunks ! j) = Inl e \<longrightarrow>
        send K C enc fb rpc mid rb si m r message epk = (ixs, Inl e))"
proof (intro impI conjI)
  assume h: "encodeMessage enc mid message = Inr chunks \<and>
   resolve_encryption_key K fb rpc m r epk = Inr pk \<and>
   encryption_secret_key m = Some sk"
  hence s: "send K C enc fb rpc mid rb si m r message epk
            = send_chunks K C rb si m r sk pk 0 chunks [] []"
    by (simp add: send_def)
  {
    assume a: "length ixs = length chunks \<and> length sigs = length chunks \<and>
      (\<forall>j < length chunks.
          chunk_instruction K C rb m r sk pk j (chunks ! j) = Inr (ixs ! j) \<and>
          si j (ixs ! j) = Inr (sigs ! j))"
    have "send_chunks K C rb si m r sk pk 0 chunks [] [] = ([] @ ixs, Inr ([] @ sigs))"
      by (rule send_chunks_all_landed) (use a in auto)
    thus "send K C enc fb rpc mid rb si m r message epk = (ixs, Inr sigs)" using s by simp
  }
  {
    assume a: "length ixs = j \<and> length sigs = j \<and> j < length chunks \<and>
      (\<forall>i < j.
          chunk_instruction K C rb m r sk pk i (chunks ! i) = Inr (ixs ! i) \<and>
          si i (ixs ! i) = Inr (sigs ! i)) \<and>
      chunk_instruction K C rb m r sk pk j (chunks ! j) = Inr ix \<and>
      si j ix = Inl e"
    have "send_chunks K C rb si m r sk pk 0 chunks [] [] =
     (case chunk_instruction K C rb m r sk pk (0 + j) (chunks ! j) of
        Inl e \<Rightarrow> ([] @ ixs, Inl e)
      | Inr ix \<Rightarrow>
          (case si (0 + j) ix of
             Inl e \<Rightarrow> ([] @ ixs @ [ix], Inl e)
           | Inr sg \<Rightarrow>
               send_chunks K C rb si m r sk pk (Suc (0 + j)) (drop (Suc j) chunks)
                 ([] @ ixs @ [ix]) ([] @ sigs @ [sg])))"
      by (rule send_chunks_failure) (use a in auto)
    thus "send K C enc fb rpc mid rb si m r message epk = (ixs @ [ix], Inl e)"
      using s a by simp
  }
  {
    assume a: "length ixs = j \<and> length sigs = j \<and> j < length chunks \<and>
      (\<forall>i < j.
          chunk_instruction K C rb m r sk pk i (chunks ! i) = Inr (ixs ! i) \<and>
          si i (ixs ! i) = Inr (sigs ! i)) \<and>
      chunk_instruction K C rb m r sk pk j (chunks ! j) = Inl e"
    have "send_chunks K C rb si m r sk pk 0 chunks [] [] =
     (case chunk_instruction K C rb m r sk pk (0 + j) (chunks ! j) of
        Inl e \<Rightarrow> ([] @ ixs, Inl e)
      | Inr ix \<Rightarrow>
          (case si (0 + j) ix of
             Inl e \<Rightarrow> ([] @ ixs @ [ix], Inl e)
           | Inr sg \<Rightarrow>
               send_chunks K C rb si m r sk pk (Suc (0 + j)) (drop (Suc j) chunks)
                 ([] @ ixs @ [ix]) ([] @ sigs @ [sg])))"
      by (rule send_chunks_failure) (use a in auto)
    thus "send K C enc fb rpc mid rb si m r message epk = (ixs, Inl e)"
      using s a by simp
  }
qed


lemma long_text_chunks:
  "encodeMessage ascii_encode sample_message_id long_text = Inr [long_text_frame 0, long_text_frame 1]"
proof -
  have m: "length sample_message_id = 8" by (simp add: sample_message_id_def)
  have l: "length (ascii_encode long_text) = 700" by (simp add: ascii_encode_def long_text_def)
  have u: "[0..<2] = [0, 1]" by (simp add: upt_rec)
  show ?thesis
    using encodeMessage_chunked[OF m, of ascii_encode long_text]
    by (simp add: l MAX_PAYLOAD_SIZE_def u long_text_frame_def)
qed

lemma toy_tag_alice_bob: "toy_tag (address_bytes bob) (take 32 (keypair_of alice)) = replicate 32 3"
  by (simp add: toy_tag_def address_bytes_def keypair_of_def alice_def bob_def zip_replicate map_replicate_const)

lemma chunk_instruction_alice_bob:
  "chunk_instruction bytewise_kit toy_crypto constant_nonce alice_messenger bob
     (keypair_of alice) (address_bytes bob) k frame = Inr (alice_to_bob_instruction frame)"
proof -
  have e: "encrypt toy_crypto (constant_nonce k) frame (keypair_of alice) (address_bytes bob)
           = Inr (replicate 32 3 @ frame, sample_nonce)"
    using toy_tag_alice_bob
    by (simp add: encrypt_def toy_crypto_def constant_nonce_def sample_nonce_def address_bytes_def bob_def)
  have a: "addressToBytes bytewise_kit bob = Inr (address_bytes bob)"
    by (simp add: addressToBytes_def bytewise_kit_def address_bytes_def)
  have s: "serializeSendMessageData (address_bytes bob) (replicate 32 3 @ frame) sample_nonce
           = Inr (SEND_MESSAGE_DISC @ address_bytes bob @ u32le (length (replicate 32 (3::u8) @ frame))
                  @ (replicate 32 3 @ frame) @ sample_nonce)"
    by (rule serializeSendMessageData_layout) (simp_all add: address_bytes_def bob_def sample_nonce_def)
  have i: "make_instruction bytewise_kit DEFAULT_PROGRAM_ID [(alice, WRITABLE_SIGNER)] d
           = Inr \<lparr> programAddress = DEFAULT_PROGRAM_ID,
                   accounts = [\<lparr> acc_address = alice, acc_role = WRITABLE_SIGNER \<rparr>], data = d \<rparr>" for d
    by (simp add: make_instruction_def address_def bytewise_kit_def DEFAULT_PROGRAM_ID_def alice_def)
  show ?thesis
    unfolding chunk_instruction_def e
    by (simp add: buildSendMessageInstruction_sender_only_def a s i alice_messenger_def
        alice_to_bob_instruction_def)
qed

lemma resolve_alice_bob:
  "resolve_encryption_key bytewise_kit fb rpc alice_messenger bob None = Inr (address_bytes bob)"
  by (simp add: resolve_encryption_key_def alice_messenger_def addressToBytes_def bytewise_kit_def
      address_bytes_def)

lemma secret_alice: "encryption_secret_key alice_messenger = Some (keypair_of alice)"
  by (simp add: encryption_secret_key_def alice_messenger_def)

theorem send_result_and_partial_failure_witness:
  "encodeMessage ascii_encode sample_message_id long_text
     = Inr [long_text_frame 0, long_text_frame 1] \<and>
   resolve_encryption_key bytewise_kit buffer_from_base64 registry_node alice_messenger bob None
     = Inr (address_bytes bob) \<and>
   encryption_secret_key alice_messenger = Some (keypair_of alice) \<and>
   send bytewise_kit toy_crypto ascii_encode buffer_from_base64 registry_node sample_message_id
       constant_nonce submit_all_land alice_messenger bob long_text None
     = ([alice_to_bob_instruction (long_text_frame 0), alice_to_bob_instruction (long_text_frame 1)],
        Inr [''sig0'', ''sig1'']) \<and>
   send bytewise_kit toy_crypto ascii_encode buffer_from_base64 registry_node sample_message_id
       constant_nonce submit_second_fails alice_messenger bob long_text None
     = ([alice_to_bob_instruction (long_text_frame 0), alice_to_bob_instruction (long_text_frame 1)],
        Inl (Thrown ''blockhash expired'')) \<and>
   resolve_encryption_key bytewise_kit buffer_from_base64 registry_node alice_messenger bob (Some [])
     = Inr [] \<and>
   send bytewise_kit toy_crypto ascii_encode buffer_from_base64 registry_node sample_message_id
       constant_nonce submit_all_land alice_messenger bob long_text (Some [])
     = ([], Inl RecipientKeyConversionFailed)"
proof -
  let ?f0 = "long_text_frame 0" and ?f1 = "long_text_frame 1"
  let ?i0 = "alice_to_bob_instruction ?f0" and ?i1 = "alice_to_bob_instruction ?f1"
  note R = resolve_alice_bob[of buffer_from_base64 registry_node]
  have R': "resolve_encryption_key bytewise_kit buffer_from_base64 registry_node alice_messenger bob (Some [])
     = Inr []" by (simp add: resolve_encryption_key_def)
  have ci: "chunk_instruction bytewise_kit toy_crypto constant_nonce alice_messenger bob
     (keypair_of alice) (address_bytes bob) j ([?f0, ?f1] ! j) = Inr ([?i0, ?i1] ! j)" if "j < 2" for j
    using that chunk_instruction_alice_bob by (cases j) (simp_all add: nth_Cons')
  have ok: "submit_all_land j ([?i0, ?i1] ! j) = Inr ([''sig0'', ''sig1''] ! j)" if "j < 2" for j
  proof -
    from that have "j = 0 \<or> j = 1" by auto
    thus ?thesis by (auto simp: submit_all_land_def hex_digit_def)
  qed
  have bad: "chunk_instruction bytewise_kit toy_crypto constant_nonce alice_messenger bob
     (keypair_of alice) [] 0 ([?f0, ?f1] ! 0) = Inl RecipientKeyConversionFailed"
    by (simp add: chunk_instruction_def encrypt_def toy_crypto_def)
  note T = send_result_and_partial_failure[where enc = ascii_encode and mid = sample_message_id
      and message = long_text and chunks = "[?f0, ?f1]" and K = bytewise_kit and fb = buffer_from_base64
      and rpc = registry_node and m = alice_messenger and r = bob and sk = "keypair_of alice"
      and C = toy_crypto and rb = constant_nonce]
  from T[where epk = None and pk = "address_bytes bob" and si = submit_all_land
         and ixs = "[?i0, ?i1]" and sigs = "[''sig0'', ''sig1'']"]
       long_text_chunks R secret_alice ci ok
  have 1: "send bytewise_kit toy_crypto ascii_encode buffer_from_base64 registry_node sample_message_id
       constant_nonce submit_all_land alice_messenger bob long_text None
     = ([?i0, ?i1], Inr [''sig0'', ''sig1''])"
    by simp
  have s0: "submit_second_fails 0 ?i0 = Inr ''sig0''" by (simp add: submit_second_fails_def)
  have s1: "submit_second_fails 1 ?i1 = Inl (Thrown ''blockhash expired'')"
    by (simp add: submit_second_fails_def)
  from T[where epk = None and pk = "address_bytes bob" and si = submit_second_fails
         and ixs = "[?i0]" and sigs = "[''sig0'']" and j = 1 and ix = ?i1
         and e = "Thrown ''blockhash expired''"]
       long_text_chunks R secret_alice ci[of 0] ci[of 1] s0 s1
  have 2: "send bytewise_kit toy_crypto ascii_encode buffer_from_base64 registry_node sample_message_id
       constant_nonce submit_second_fails alice_messenger bob long_text None
     = ([?i0, ?i1], Inl (Thrown ''blockhash expired''))"
    by simp
  from T[where epk = "Some []" and pk = "[]" and si = submit_all_land
         and ixs = "[]" and sigs = "[]" and j = 0 and e = RecipientKeyConversionFailed]
       long_text_chunks R' secret_alice bad
  have 3: "send bytewise_kit toy_crypto ascii_encode buffer_from_base64 registry_node sample_message_id
       constant_nonce submit_all_land alice_messenger bob long_text (Some [])
     = ([], Inl RecipientKeyConversionFailed)"
    by simp
  show ?thesis using long_text_chunks R secret_alice 1 2 R' 3 by simp
qed

text \<open>
  The claim as stated (the error carries the landed signatures and the index of the failed
  chunk) fails: a send whose first chunk lands with signature \<open>sig0\<close> and whose second
  chunk fails throws the very same error as a send whose first chunk fails.
\<close>

theorem send_error_counterexample:
  "send bytewise_kit toy_crypto ascii_encode buffer_from_base64 registry_node sample_message_id
       constant_nonce submit_second_fails alice_messenger bob long_text None
     = ([alice_to_bob_instruction (long_text_frame 0), alice_to_bob_instruction (long_text_frame 1)],
        Inl (Thrown ''blockhash expired'')) \<and>
   submit_second_fails 0 (alice_to_bob_instruction (long_text_frame 0)) = Inr ''sig0'' \<and>
   send bytewise_kit toy_crypto ascii_encode buffer_from_base64 registry_node sample_message_id
       constant_nonce submit_first_fails alice_messenger bob long_text None
     = ([alice_to_bob_instruction (long_text_frame 0)], Inl (Thrown ''blockhash expired''))"
proof -
  let ?f0 = "long_text_frame 0" and ?f1 = "long_text_frame 1"
  have s: "send bytewise_kit toy_crypto ascii_encode buffer_from_base64 registry_node sample_message_id
       constant_nonce si alice_messenger bob long_text None
     = send_chunks bytewise_kit toy_crypto constant_nonce si alice_messenger bob (keypair_of alice)
         (address_bytes bob) 0 [?f0, ?f1] [] []" for si
    by (simp add: send_def long_text_chunks resolve_alice_bob secret_alice)
  show ?thesis
    unfolding s
    by (simp add: chunk_instruction_alice_bob submit_second_fails_def submit_first_fails_def)
qed


section \<open>Event parser: properties\<close>

lemma js_or_sint: "js_or (sint (x :: 32 word)) b = sint (x OR word_of_int b)"
  by (simp add: js_or_def)

lemma js_or_uint8: "js_or (uint (x :: u8)) b = sint ((ucast x :: 32 word) OR word_of_int b)"
  by (simp add: js_or_def)

lemma w32_js_shl_byte: "k < 32 \<Longrightarrow> (word_of_int (js_shl (uint (x :: u8)) k) :: 32 word) = push_bit k (ucast x)"
  by (simp add: js_shl_def)

lemma w32_js_ushr0: "(word_of_int (js_ushr a 0) :: 32 word) = word_of_int a"
  by (simp add: js_ushr_def)

lemma js_le32:
  "js_or (js_or (js_or (uint b0) (js_shl (uint b1) 8)) (js_shl (uint b2) 16)) (js_shl (uint b3) 24)
   = sint (le32 b0 b1 b2 b3)"
proof -
  have "js_or (uint b0) (js_shl (uint b1) 8) = sint ((ucast b0 :: 32 word) OR push_bit 8 (ucast b1))"
    by (simp only: js_or_uint8 w32_js_shl_byte[of 8, simplified])
  hence "js_or (js_or (uint b0) (js_shl (uint b1) 8)) (js_shl (uint b2) 16)
         = sint ((ucast b0 :: 32 word) OR push_bit 8 (ucast b1) OR push_bit 16 (ucast b2))"
    by (simp only: js_or_sint w32_js_shl_byte[of 16, simplified] or.assoc)
  hence "js_or (js_or (js_or (uint b0) (js_shl (uint b1) 8)) (js_shl (uint b2) 16)) (js_shl (uint b3) 24)
         = sint ((ucast b0 :: 32 word) OR push_bit 8 (ucast b1) OR push_bit 16 (ucast b2) OR push_bit 24 (ucast b3))"
    by (simp only: js_or_sint w32_js_shl_byte[of 24, simplified] or.assoc)
  thus ?thesis by (simp only: le32_def)
qed

lemma js_le32_ushr:
  "js_or (js_or (js_or (uint b0) (js_shl (uint b1) 8)) (js_shl (uint b2) 16))
         (js_ushr (js_shl (uint b3) 24) 0)
   = sint (le32 b0 b1 b2 b3)"
proof -
  have "js_or (uint b0) (js_shl (uint b1) 8) = sint ((ucast b0 :: 32 word) OR push_bit 8 (ucast b1))"
    by (simp only: js_or_uint8 w32_js_shl_byte[of 8, simplified])
  hence "js_or (js_or (uint b0) (js_shl (uint b1) 8)) (js_shl (uint b2) 16)
         = sint ((ucast b0 :: 32 word) OR push_bit 8 (ucast b1) OR push_bit 16 (ucast b2))"
    by (simp only: js_or_sint w32_js_shl_byte[of 16, simplified] or.assoc)
  hence "js_or (js_or (js_or (uint b0) (js_shl (uint b1) 8)) (js_shl (uint b2) 16)) (js_ushr (js_shl (uint b3) 24) 0)
         = sint ((ucast b0 :: 32 word) OR push_bit 8 (ucast b1) OR push_bit 16 (ucast b2) OR push_bit 24 (ucast b3))"
    by (simp only: js_or_sint w32_js_ushr0 w32_js_shl_byte[of 24, simplified] or.assoc)
  thus ?thesis by (simp only: le32_def)
qed

lemma le32_bytes:
  fixes w :: "32 word"
  shows "le32 (ucast w) (ucast (drop_bit 8 w)) (ucast (drop_bit 16 w)) (ucast (drop_bit 24 w)) = w"
proof (rule bit_word_eqI)
  fix n assume n: "n < LENGTH(32)"
  consider "n < 8" | "8 \<le> n" "n < 16" | "16 \<le> n" "n < 24" | "24 \<le> n" by linarith
  thus "bit (le32 (ucast w) (ucast (drop_bit 8 w)) (ucast (drop_bit 16 w)) (ucast (drop_bit 24 w))) n
        = bit w n"
  proof cases
    case 1
    then show ?thesis using n by (simp add: le32_def bit_simps)
  next
    case 2
    then show ?thesis using n by (auto simp: le32_def bit_simps)
  next
    case 3
    then show ?thesis using n by (auto simp: le32_def bit_simps)
  next
    case 4
    then show ?thesis using n by (auto simp: le32_def bit_simps)
  qed
qed

lemma sint32_of_int:
  assumes "- 2147483648 \<le> x" "x < 2147483648"
  shows "sint (word_of_int x :: 32 word) = x"
proof -
  have "sint (word_of_int x :: 32 word) = (x + 2147483648) mod 4294967296 - 2147483648"
    by (simp add: int_word_sint)
  also have "(x + 2147483648) mod 4294967296 = x + 2147483648"
    using assms by (intro mod_pos_pos_trivial) auto
  finally show ?thesis by simp
qed

lemma sint32_of_nat: "n < 2147483648 \<Longrightarrow> sint (of_nat n :: 32 word) = int n"
  using sint32_of_int[of "int n"] by simp

lemma readU32LE_at:
  assumes "length pre = k" "int k = off"
  shows "readU32LE (pre @ b0 # b1 # b2 # b3 # post) off = sint (le32 b0 b1 b2 b3)"
proof -
  let ?d = "pre @ b0 # b1 # b2 # b3 # post"
  have "byte_at ?d off = uint b0" "byte_at ?d (off + 1) = uint b1"
       "byte_at ?d (off + 2) = uint b2" "byte_at ?d (off + 3) = uint b3"
    using assms by (auto simp: byte_at_def nth_append nat_add_distrib)
  thus ?thesis unfolding readU32LE_def by (simp only: js_le32)
qed

lemma readU32LE_u32le:
  assumes "length pre = k" "int k = off" "n < 2147483648"
  shows "readU32LE (pre @ u32le n @ post) off = int n"
proof -
  let ?w = "of_nat n :: 32 word"
  have "readU32LE (pre @ u32le n @ post) off
        = sint (le32 (ucast ?w) (ucast (drop_bit 8 ?w)) (ucast (drop_bit 16 ?w)) (ucast (drop_bit 24 ?w)))"
    using readU32LE_at[OF assms(1,2)] by (simp add: u32le_def Let_def)
  also have "\<dots> = sint ?w" by (simp only: le32_bytes)
  also have "\<dots> = int n" using assms(3) by (rule sint32_of_nat)
  finally show ?thesis .
qed


lemma le32_low_half:
  fixes v :: "64 word"
  shows "le32 (ucast v) (ucast (drop_bit 8 v)) (ucast (drop_bit 16 v)) (ucast (drop_bit 24 v))
         = (ucast v :: 32 word)"
proof (rule bit_word_eqI)
  fix n assume n: "n < LENGTH(32)"
  consider "n < 8" | "8 \<le> n" "n < 16" | "16 \<le> n" "n < 24" | "24 \<le> n" by linarith
  thus "bit (le32 (ucast v) (ucast (drop_bit 8 v)) (ucast (drop_bit 16 v)) (ucast (drop_bit 24 v))) n
        = bit (ucast v :: 32 word) n"
  proof cases
    case 1
    then show ?thesis using n by (simp add: le32_def bit_simps)
  next
    case 2
    then show ?thesis using n by (auto simp: le32_def bit_simps)
  next
    case 3
    then show ?thesis using n by (auto simp: le32_def bit_simps)
  next
    case 4
    then show ?thesis using n by (auto simp: le32_def bit_simps)
  qed
qed

lemma le32_high_half:
  fixes v :: "64 word"
  shows "le32 (ucast (drop_bit 32 v)) (ucast (drop_bit 40 v)) (ucast (drop_bit 48 v)) (ucast (drop_bit 56 v))
         = (ucast (drop_bit 32 v) :: 32 word)"
  using le32_low_half[of "drop_bit 32 v"] by (simp add: drop_bit_drop_bit)

lemma low_half_of_int: "(ucast (word_of_int t :: 64 word) :: 32 word) = word_of_int t"
  by (rule bit_word_eqI) (auto simp: bit_simps)

lemma high_half_of_int:
  "(ucast (drop_bit 32 (word_of_int t :: 64 word)) :: 32 word) = word_of_int (t div 4294967296)"
  by (rule bit_word_eqI) (auto simp: bit_simps simp flip: drop_bit_eq_div[of 32, simplified])


lemma readI64LE_at:
  assumes "length pre = k" "int k = off"
  shows "readI64LE (pre @ b0 # b1 # b2 # b3 # b4 # b5 # b6 # b7 # post) off
         = round_to_double (sint (le32 b0 b1 b2 b3) + sint (le32 b4 b5 b6 b7) * 4294967296)"
proof -
  let ?d = "pre @ b0 # b1 # b2 # b3 # b4 # b5 # b6 # b7 # post"
  have "byte_at ?d off = uint b0" "byte_at ?d (off + 1) = uint b1"
       "byte_at ?d (off + 2) = uint b2" "byte_at ?d (off + 3) = uint b3"
       "byte_at ?d (off + 4) = uint b4" "byte_at ?d (off + 5) = uint b5"
       "byte_at ?d (off + 6) = uint b6" "byte_at ?d (off + 7) = uint b7"
    using assms by (auto simp: byte_at_def nth_append nat_add_distrib)
  thus ?thesis unfolding readI64LE_def Let_def by (simp only: js_le32_ushr)
qed

lemma round_to_double_exact: "\<bar>x\<bar> \<le> 9007199254740992 \<Longrightarrow> round_to_double x = x"
  by (simp add: round_to_double_def)

lemma readI64LE_i64le:
  assumes "length pre = k" "int k = off"
    and r: "\<bar>t\<bar> \<le> 9007199254740992" and b: "t mod 4294967296 < 2147483648"
  shows "readI64LE (pre @ i64le t @ post) off = t"
proof -
  let ?w = "word_of_int t :: 64 word"
  have lo: "sint (ucast ?w :: 32 word) = t mod 4294967296"
  proof -
    have "(ucast ?w :: 32 word) = word_of_int (t mod 4294967296)"
      unfolding low_half_of_int by (simp add: word_of_int_eq_iff take_bit_eq_mod)
    thus ?thesis using b by (simp add: sint32_of_int)
  qed
  have hi: "sint (ucast (drop_bit 32 ?w) :: 32 word) = t div 4294967296"
    unfolding high_half_of_int using r by (intro sint32_of_int) auto
  have "readI64LE (pre @ i64le t @ post) off
        = round_to_double (sint (ucast ?w :: 32 word) + sint (ucast (drop_bit 32 ?w) :: 32 word) * 4294967296)"
    using readI64LE_at[OF assms(1,2)]
    by (simp add: i64le_def Let_def le32_low_half le32_high_half)
  also have "\<dots> = round_to_double t" unfolding lo hi by simp
  also have "\<dots> = t" using r by (rule round_to_double_exact)
  finally show ?thesis .
qed

lemma i64le_length: "length (i64le t) = 8"
  by (simp add: i64le_def Let_def)

lemma subarray_at:
  assumes "length pre = k" "int k = a" "b = a + int (length x)"
  shows "subarray (pre @ x @ post) a b = x"
  using assms by (auto simp: subarray_def Let_def min_def)

lemma subarray_0_8: "8 \<le> length dat \<Longrightarrow> subarray dat 0 8 = take 8 dat"
  by (simp add: subarray_def Let_def min_def)

lemma bytesEqual_iff: "bytesEqual a b \<longleftrightarrow> a = b"
proof (cases "length a = length b")
  case True
  have "list_all (\<lambda>i. a ! i = b ! i) [0..<length a] \<longleftrightarrow> (\<forall>i < length a. a ! i = b ! i)"
    by (auto simp: list_all_iff)
  also have "\<dots> \<longleftrightarrow> a = b" using True by (simp add: list_eq_iff_nth_eq)
  finally show ?thesis using True by (simp add: bytesEqual_def)
next
  case False
  thus ?thesis by (auto simp: bytesEqual_def)
qed

lemma indexOf_None: "indexOf line pat = None \<longleftrightarrow> \<not> (\<exists>pre post. line = pre @ pat @ post)"
proof (induction line)
  case Nil
  show ?case by auto
next
  case (Cons c cs)
  show ?case
  proof (cases "take (length pat) (c # cs) = pat")
    case True
    hence "c # cs = [] @ pat @ drop (length pat) (c # cs)"
      by (metis append_Nil append_take_drop_id)
    thus ?thesis using True by (auto simp del: append_Nil)
  next
    case False
    have "(\<exists>pre post. c # cs = pre @ pat @ post) \<longleftrightarrow> (\<exists>pre post. cs = pre @ pat @ post)"
    proof
      assume "\<exists>pre post. c # cs = pre @ pat @ post"
      then obtain pre post where e: "c # cs = pre @ pat @ post" by blast
      show "\<exists>pre post. cs = pre @ pat @ post"
      proof (cases pre)
        case Nil
        with e have "take (length pat) (c # cs) = pat" by simp
        with False show ?thesis by simp
      next
        case (Cons a pre')
        with e have "cs = pre' @ pat @ post" by simp
        thus ?thesis by blast
      qed
    next
      assume "\<exists>pre post. cs = pre @ pat @ post"
      then obtain pre post where "cs = pre @ pat @ post" by blast
      hence "c # cs = (c # pre) @ pat @ post" by simp
      thus "\<exists>pre post. c # cs = pre @ pat @ post" by blast
    qed
    thus ?thesis using False Cons.IH by simp
  qed
qed

lemma indexOf_Some:
  "indexOf line pat = Some i \<Longrightarrow>
   (\<exists>post. drop i line = pat @ post) \<and> (\<forall>j < i. take (length pat) (drop j line) \<noteq> pat)"
proof (induction line arbitrary: i)
  case Nil
  thus ?case by (auto split: if_splits)
next
  case (Cons c cs)
  show ?case
  proof (cases "take (length pat) (c # cs) = pat")
    case True
    hence i: "i = 0" using Cons.prems by simp
    have "c # cs = pat @ drop (length pat) (c # cs)" using True by (metis append_take_drop_id)
    thus ?thesis using i by auto
  next
    case False
    then obtain i' where i: "i = Suc i'" and r: "indexOf cs pat = Some i'"
      using Cons.prems by auto
    from Cons.IH[OF r] have
      1: "\<exists>post. drop i' cs = pat @ post" and 2: "\<forall>j < i'. take (length pat) (drop j cs) \<noteq> pat"
      by blast+
    have "\<forall>j < Suc i'. take (length pat) (drop j (c # cs)) \<noteq> pat"
    proof (intro allI impI)
      fix j assume "j < Suc i'"
      show "take (length pat) (drop j (c # cs)) \<noteq> pat"
      proof (cases j)
        case 0
        thus ?thesis using False by simp
      next
        case (Suc j')
        thus ?thesis using 2 \<open>j < Suc i'\<close> by simp
      qed
    qed
    thus ?thesis using 1 i by simp
  qed
qed

lemma parse_lines_map_filter:
  "parse_lines dec b58 logs events = events @ List.map_filter (parse_line dec b58) logs"
  by (induction logs arbitrary: events) (auto simp: List.map_filter_simps split: option.splits)

lemma prefix_length: "length ''Program data: '' = 14"
  by simp

lemma parse_line_unfold:
  "parse_line dec b58 line =
     (case indexOf line ''Program data: '' of
        None \<Rightarrow> None
      | Some idx \<Rightarrow>
          (case dec (trim (drop (idx + 14) line)) of
             None \<Rightarrow> None
           | Some dat \<Rightarrow>
               if length dat < 8 \<or> take 8 dat \<noteq> MESSAGE_SENT_DISCRIMINATOR then None
               else Some \<lparr> sender = b58 (subarray dat 8 40),
                           recipient = b58 (subarray dat 40 72),
                           ciphertext = subarray dat 76 (76 + readU32LE dat 72),
                           nonce = subarray dat (76 + readU32LE dat 72) (76 + readU32LE dat 72 + 24),
                           timestamp = readI64LE dat (76 + readU32LE dat 72 + 24),
                           txSignature = None \<rparr>))"
proof (cases "indexOf line ''Program data: ''")
  case None
  thus ?thesis unfolding parse_line_def Let_def by (simp only: option.case)
next
  case (Some idx)
  show ?thesis
  proof (cases "dec (trim (drop (idx + 14) line))")
    case None
    thus ?thesis unfolding parse_line_def Let_def prefix_length Some by (simp only: option.case)
  next
    case (Some dat)
    show ?thesis
      unfolding parse_line_def Let_def prefix_length \<open>indexOf line ''Program data: '' = Some idx\<close> Some
        option.case
      by (auto simp: bytesEqual_iff subarray_0_8)
  qed
qed

lemma parse_line_None:
  "parse_line dec b58 line = None \<longleftrightarrow>
     (case indexOf line ''Program data: '' of
        None \<Rightarrow> True
      | Some idx \<Rightarrow>
          (case dec (trim (drop (idx + 14) line)) of
             None \<Rightarrow> True
           | Some dat \<Rightarrow> length dat < 8 \<or> take 8 dat \<noteq> MESSAGE_SENT_DISCRIMINATOR))"
  unfolding parse_line_unfold by (simp split: option.splits)


lemma disc_length: "length MESSAGE_SENT_DISCRIMINATOR = 8"
  by (simp add: MESSAGE_SENT_DISCRIMINATOR_def)

lemma parse_fields:
  fixes rest :: bytes
  assumes s: "length s = 32" and r: "length r = 32" and c: "length ct = n"
    and n: "n < 2147483648" and k: "length nc = 24"
    and t: "\<bar>t\<bar> \<le> 9007199254740992" "t mod 4294967296 < 2147483648"
  defines "dat \<equiv> MESSAGE_SENT_DISCRIMINATOR @ s @ r @ u32le n @ ct @ nc @ i64le t @ rest"
  shows "subarray dat 8 40 = s" "subarray dat 40 72 = r" "readU32LE dat 72 = int n"
    "subarray dat 76 (76 + int n) = ct" "subarray dat (76 + int n) (76 + int n + 24) = nc"
    "readI64LE dat (76 + int n + 24) = t" "take 8 dat = MESSAGE_SENT_DISCRIMINATOR"
    "8 \<le> length dat"
proof -
  let ?D = MESSAGE_SENT_DISCRIMINATOR
  note d = disc_length
  show "subarray dat 8 40 = s"
    unfolding dat_def by (rule subarray_at[where k = 8]) (simp_all add: d s)
  have "subarray ((?D @ s) @ r @ (u32le n @ ct @ nc @ i64le t @ rest)) 40 72 = r"
    by (rule subarray_at[where k = 40]) (simp_all add: d s r)
  thus "subarray dat 40 72 = r" unfolding dat_def by simp
  have "readU32LE ((?D @ s @ r) @ u32le n @ (ct @ nc @ i64le t @ rest)) 72 = int n"
    by (rule readU32LE_u32le[where k = 72]) (simp_all add: d s r n)
  thus "readU32LE dat 72 = int n" unfolding dat_def by simp
  have "subarray ((?D @ s @ r @ u32le n) @ ct @ (nc @ i64le t @ rest)) 76 (76 + int n) = ct"
    by (rule subarray_at[where k = 76]) (simp_all add: d s r c u32le_length)
  thus "subarray dat 76 (76 + int n) = ct" unfolding dat_def by simp
  have "subarray ((?D @ s @ r @ u32le n @ ct) @ nc @ (i64le t @ rest)) (76 + int n) (76 + int n + 24) = nc"
    by (rule subarray_at[where k = "76 + n"]) (simp_all add: d s r c k u32le_length)
  thus "subarray dat (76 + int n) (76 + int n + 24) = nc" unfolding dat_def by simp
  have "readI64LE ((?D @ s @ r @ u32le n @ ct @ nc) @ i64le t @ rest) (76 + int n + 24) = t"
    by (rule readI64LE_i64le[where k = "100 + n"]) (simp_all add: d s r c k u32le_length t)
  thus "readI64LE dat (76 + int n + 24) = t" unfolding dat_def by simp
  show "take 8 dat = ?D" unfolding dat_def by (simp add: d)
  show "8 \<le> length dat" unfolding dat_def by (simp add: d)
qed

lemma parse_line_full_layout:
  assumes i: "indexOf line ''Program data: '' = Some idx"
    and d: "dec (trim (drop (idx + 14) line))
            = Some (MESSAGE_SENT_DISCRIMINATOR @ s @ r @ u32le n @ ct @ nc @ i64le t @ rest)"
    and s: "length s = 32" and r: "length r = 32" and c: "length ct = n"
    and n: "n < 2147483648" and k: "length nc = 24"
    and t: "\<bar>t\<bar> \<le> 9007199254740992" "t mod 4294967296 < 2147483648"
  shows "parse_line dec b58 line =
     Some \<lparr> sender = b58 s, recipient = b58 r, ciphertext = ct, nonce = nc, timestamp = t,
            txSignature = None \<rparr>"
proof -
  note F = parse_fields[OF s r c n k t, of rest]
  show ?thesis
    unfolding parse_line_unfold i d option.case F
    using F(8) by simp
qed

text \<open>
  The parser as it is written. \<open>parseMessageSentEvents\<close> keeps, in the order of the
  log lines, what \<open>parse_line\<close> makes of each line, and never raises. A line gives no
  event exactly when it does not contain \<open>"Program data: "\<close>, or the trimmed text after
  the first occurrence is refused by the base64 decoder, or the decoded bytes are fewer
  than 8 or do not start with the discriminator. On the bytes of a complete record the
  sender, the recipient, the ciphertext and the nonce are the fields of the record, and
  so is the timestamp when bit 31 of its low word is clear.
\<close>

lemma parse_line_behaviour:
  "parseMessageSentEvents dec b58 logs = List.map_filter (parse_line dec b58) logs \<and>
   (parse_line dec b58 line = None \<longleftrightarrow>
      (case indexOf line ''Program data: '' of
         None \<Rightarrow> True
       | Some idx \<Rightarrow>
           (case dec (trim (drop (idx + 14) line)) of
              None \<Rightarrow> True
            | Some dat \<Rightarrow>
                length dat < 8 \<or> take 8 dat \<noteq> [0x74, 0x46, 0xE0, 0x4C, 0x80, 0x1C, 0x6E, 0x37]))) \<and>
   (indexOf line ''Program data: '' = None \<longleftrightarrow>
      \<not> (\<exists>pre post. line = pre @ ''Program data: '' @ post)) \<and>
   (indexOf line ''Program data: '' = Some idx \<and>
    dec (trim (drop (idx + 14) line))
      = Some ([0x74, 0x46, 0xE0, 0x4C, 0x80, 0x1C, 0x6E, 0x37] @ s @ r @ u32le n @ ct @ nc @
              i64le t @ rest) \<and>
    length s = 32 \<and> length r = 32 \<and> length ct = n \<and> n < 2147483648 \<and> length nc = 24 \<and>
    \<bar>t\<bar> \<le> 9007199254740992 \<and> t mod 4294967296 < 2147483648 \<longrightarrow>
      parse_line dec b58 line =
        Some \<lparr> sender = b58 s, recipient = b58 r, ciphertext = ct, nonce = nc, timestamp = t,
               txSignature = None \<rparr>)"
proof -
  have D: "[0x74, 0x46, 0xE0, 0x4C, 0x80, 0x1C, 0x6E, 0x37] = MESSAGE_SENT_DISCRIMINATOR"
    by (simp add: MESSAGE_SENT_DISCRIMINATOR_def)
  have 1: "parseMessageSentEvents dec b58 logs = List.map_filter (parse_line dec b58) logs"
    by (simp add: parseMessageSentEvents_def parse_lines_map_filter)
  show ?thesis
    unfolding D
    using 1 parse_line_None[of dec b58 line] indexOf_None[of line "''Program data: ''"]
      parse_line_full_layout[of line idx dec s r n ct nc t rest b58]
    by blast
qed


lemma indexOf_log_gm: "indexOf log_gm ''Program data: '' = Some 0"
  by code_simp

lemma decode_log_gm:
  "atob_decode (trim (drop (0 + 14) log_gm)) =
     Some ([0x74, 0x46, 0xE0, 0x4C, 0x80, 0x1C, 0x6E, 0x37] @ address_bytes alice @
           address_bytes bob @ u32le 47 @
           (replicate 32 3 @ [0, 1, 2, 3, 4, 5, 6, 7, 8, 0, 0, 0, 1, 103, 109]) @
           sample_nonce @ i64le 1700000000 @ [])"
  by code_simp

lemma parse_log_gm:
  "parseMessageSentEvents atob_decode (bytes_to_base58 bytewise_kit)
       [''Program log: Instruction: SendMessage'', log_gm] =
     List.map_filter (parse_line atob_decode (bytes_to_base58 bytewise_kit))
       [''Program log: Instruction: SendMessage'', log_gm] \<and>
   parse_line atob_decode (bytes_to_base58 bytewise_kit) log_gm =
     Some \<lparr> sender = alice, recipient = bob,
            ciphertext = replicate 32 3 @ [0, 1, 2, 3, 4, 5, 6, 7, 8, 0, 0, 0, 1, 103, 109],
            nonce = sample_nonce, timestamp = 1700000000, txSignature = None \<rparr>"
proof -
  have a: "bytes_to_base58 bytewise_kit (address_bytes alice) = alice"
    by code_simp
  have b: "bytes_to_base58 bytewise_kit (address_bytes bob) = bob"
    by code_simp
  have l: "length (address_bytes alice) = 32" "length (address_bytes bob) = 32"
    "length (replicate 32 (3 :: u8) @ [0, 1, 2, 3, 4, 5, 6, 7, 8, 0, 0, 0, 1, 103, 109]) = 47"
    "length sample_nonce = 24"
    by (simp_all add: address_bytes_def alice_def bob_def sample_nonce_def)
  show ?thesis
    using parse_line_behaviour
      [of atob_decode "bytes_to_base58 bytewise_kit"
          "[''Program log: Instruction: SendMessage'', log_gm]" log_gm 0
          "address_bytes alice" "address_bytes bob" 47
          "replicate 32 3 @ [0, 1, 2, 3, 4, 5, 6, 7, 8, 0, 0, 0, 1, 103, 109]"
          sample_nonce 1700000000 "[]"]
      indexOf_log_gm decode_log_gm l
    by (simp add: a b)
qed

text \<open>
  A line whose bytes are the discriminator and nothing else is not skipped: the fields
  are read from the bytes that exist.
\<close>

lemma parse_truncated_event:
  "parseMessageSentEvents atob_decode (bytes_to_base58 bytewise_kit)
       [''Program data: dEbgTIAcbjc=''] =
     [\<lparr> sender = [], recipient = [], ciphertext = [], nonce = [], timestamp = 0,
        txSignature = None \<rparr>]"
  by code_simp

text \<open>
  A timestamp with bit 31 of its low word set is read \<open>2^32\<close> too low: the \<open>>>> 0\<close> in
  \<open>readI64LE\<close> is undone by the \<open>|\<close> that follows it, so the low word is read as a
  signed 32-bit number.
\<close>

lemma readI64LE_sign_slip:
  "readI64LE (i64le 2147483648) 0 = - 2147483648"
  by code_simp

text \<open>
  Claim C3 (event parser). The claim has the timestamp of an event decoded as an i64 LE.
  The line \<open>log_2038\<close> carries the exact prefix and the base64 text of a complete
  record: the discriminator, \<open>alice\<close>, \<open>bob\<close>, the length 47, a ciphertext of 47
  bytes, a nonce of 24 bytes and the eight bytes of the timestamp 2147483648.
  \<open>parseMessageSentEvents\<close> returns one event for it, with the sender, the recipient, the
  ciphertext and the nonce of the record, and the timestamp -2147483648.
\<close>

theorem parse_timestamp_sign_slip:
  "atob_decode (trim (drop 14 log_2038)) =
     Some ([0x74, 0x46, 0xE0, 0x4C, 0x80, 0x1C, 0x6E, 0x37] @ address_bytes alice @
           address_bytes bob @ u32le 47 @
           (replicate 32 3 @ [0, 1, 2, 3, 4, 5, 6, 7, 8, 0, 0, 0, 1, 103, 109]) @
           sample_nonce @ i64le 2147483648) \<and>
   parseMessageSentEvents atob_decode (bytes_to_base58 bytewise_kit) [log_2038] =
     [\<lparr> sender = alice, recipient = bob,
        ciphertext = replicate 32 3 @ [0, 1, 2, 3, 4, 5, 6, 7, 8, 0, 0, 0, 1, 103, 109],
        nonce = sample_nonce, timestamp = - 2147483648, txSignature = None \<rparr>]"
  by code_simp

section \<open>Chunk reassembly: properties\<close>

























lemma parse_chunk_lines:
  "parseMessageSentEvents atob_decode (bytes_to_base58 bytewise_kit)
     [log_chunk0, log_chunk1, log_chunk1_carol] =
   [event_chunk0, event_chunk1, event_chunk1_carol]"
  by code_simp






















end
